theory Spec2Isabelle
  imports Complex_Main
begin

section \<open>Strings\<close>

text \<open>
  Python and JavaScript strings are sequences of code points (code units), not of bytes.
  They are modelled as lists of natural numbers; \<open>u\<close> embeds the ASCII literals that
  occur in the sources.
\<close>

type_synonym ustring = "nat list"

definition u :: "string \<Rightarrow> ustring" where
  "u s = map of_char s"

section \<open>The tasks page (TasksPage component)\<close>

text \<open>
  A JavaScript object is a finite map from property names to values. Numbers are
  idealised as reals. The order of the properties of an object is not observed by any
  function below.
\<close>

datatype jsval =
    JUndefined
  | JNull
  | JBool bool
  | JNum real
  | JStr ustring
  | JArr "jsval list"
  | JObj "ustring \<Rightarrow> jsval option"

type_synonym jsobj = "ustring \<Rightarrow> jsval option"

text \<open>Property access \<open>o.k\<close>: a missing property reads as \<open>undefined\<close>.\<close>

definition getProp :: "jsobj \<Rightarrow> string \<Rightarrow> jsval" where
  "getProp obj k = (case obj (u k) of None \<Rightarrow> JUndefined | Some v \<Rightarrow> v)"

text \<open>
  The payloads of the socket events \<open>task_updated\<close> and \<open>task_progress\<close>.
  A property that the sender left out reads as \<open>JUndefined\<close>.
\<close>

record taskData =
  task :: jsobj

record progressData =
  task_id :: jsval
  progress :: jsval
  current_step :: jsval

text \<open>
  The state of the page is the array \<open>tasks\<close>; every handler is
  \<open>setTasks(prev => prev.map(...))\<close>, modelled as a function from the previous array to
  the next one. Task ids are primitive values (strings in the page's data, UUIDs in the
  schema), on which \<open>===\<close> is equality. The spread \<open>{ ...task, ...taskData.task }\<close> is
  map override.
\<close>

definition handleTaskUpdate :: "taskData \<Rightarrow> jsobj list \<Rightarrow> jsobj list" where
  "handleTaskUpdate td prev =
     map (\<lambda>t. if getProp t ''id'' = getProp (task td) ''id'' then t ++ task td else t) prev"

definition handleTaskProgress :: "progressData \<Rightarrow> jsobj list \<Rightarrow> jsobj list" where
  "handleTaskProgress pd prev =
     map (\<lambda>t. if getProp t ''id'' = task_id pd
               then t(u ''progress'' \<mapsto> progress pd, u ''current_step'' \<mapsto> current_step pd)
               else t) prev"

text \<open>
  \<open>cancelTask\<close> asks \<open>window.confirm\<close> first; the answer is the argument \<open>confirmed\<close>.
\<close>

definition cancelTask :: "bool \<Rightarrow> jsval \<Rightarrow> jsobj list \<Rightarrow> jsobj list" where
  "cancelTask confirmed taskId prev =
     (if confirmed
      then map (\<lambda>t. if getProp t ''id'' = taskId
                     then t(u ''status'' \<mapsto> JStr (u ''cancelled''))
                     else t) prev
      else prev)"

definition retryTask :: "jsval \<Rightarrow> jsobj list \<Rightarrow> jsobj list" where
  "retryTask taskId prev =
     map (\<lambda>t. if getProp t ''id'' = taskId
               then t(u ''status'' \<mapsto> JStr (u ''pending''),
                      u ''progress'' \<mapsto> JNum 0,
                      u ''error_message'' \<mapsto> JNull)
               else t) prev"

text \<open>Reading the steps of a task: the statuses of the entries of \<open>task.steps\<close>.\<close>

definition stepStatus :: "jsval \<Rightarrow> jsval" where
  "stepStatus s = (case s of JObj m \<Rightarrow> getProp m ''status'' | _ \<Rightarrow> JUndefined)"

definition stepStatuses :: "jsobj \<Rightarrow> jsval list" where
  "stepStatuses t = (case getProp t ''steps'' of JArr ss \<Rightarrow> map stepStatus ss | _ \<Rightarrow> [])"

definition completedSteps :: "jsobj \<Rightarrow> nat" where
  "completedSteps t = length (filter (\<lambda>s. s = JStr (u ''completed'')) (stepStatuses t))"

definition totalSteps :: "jsobj \<Rightarrow> nat" where
  "totalSteps t = length (stepStatuses t)"

text \<open>
  Two tasks shaped like the entries of the mock list in \<open>loadTasks\<close>: a running task with
  two of six steps completed and a displayed progress of 65, and a failed task whose
  first step failed.
\<close>

definition mkStep :: "real \<Rightarrow> string \<Rightarrow> string \<Rightarrow> jsval \<Rightarrow> jsval" where
  "mkStep i n s d =
     JObj [u ''id'' \<mapsto> JNum i, u ''name'' \<mapsto> JStr (u n), u ''status'' \<mapsto> JStr (u s),
           u ''duration'' \<mapsto> d]"

definition taskApi :: jsobj where
  "taskApi =
     [u ''id'' \<mapsto> JStr (u ''2''),
      u ''title'' \<mapsto> JStr (u ''Desarrollo de API REST''),
      u ''status'' \<mapsto> JStr (u ''running''),
      u ''progress'' \<mapsto> JNum 65,
      u ''steps'' \<mapsto> JArr
        [mkStep 1 ''Configurar proyecto'' ''completed'' (JNum 180),
         mkStep 2 ''Modelos'' ''completed'' (JNum 240),
         mkStep 3 ''Implementar'' ''running'' JNull,
         mkStep 4 ''Crear endpoints CRUD'' ''pending'' JNull,
         mkStep 5 ''Documentar API'' ''pending'' JNull,
         mkStep 6 ''Testing'' ''pending'' JNull]]"

text \<open>
  A \<open>task_updated\<close> event for the first of them, in which the third step is completed and
  the fourth is running; it carries no \<open>progress\<close>.
\<close>

definition laterUpdate :: taskData where
  "laterUpdate =
     \<lparr>task = [u ''id'' \<mapsto> JStr (u ''2''),
              u ''steps'' \<mapsto> JArr
                [mkStep 1 ''Configurar proyecto'' ''completed'' (JNum 180),
                 mkStep 2 ''Modelos'' ''completed'' (JNum 240),
                 mkStep 3 ''Implementar'' ''completed'' (JNum 300),
                 mkStep 4 ''Crear endpoints CRUD'' ''running'' JNull,
                 mkStep 5 ''Documentar API'' ''pending'' JNull,
                 mkStep 6 ''Testing'' ''pending'' JNull]]\<rparr>"

definition taskSql :: jsobj where
  "taskSql =
     [u ''id'' \<mapsto> JStr (u ''3''),
      u ''title'' \<mapsto> JStr (u ''Consultas SQL''),
      u ''status'' \<mapsto> JStr (u ''failed''),
      u ''progress'' \<mapsto> JNum 30,
      u ''error_message'' \<mapsto> JStr (u ''Credenciales''),
      u ''steps'' \<mapsto> JArr
        [mkStep 1 ''Conectar a BD'' ''failed'' (JNum 10),
         mkStep 2 ''Analizar consultas'' ''pending'' JNull,
         mkStep 3 ''Optimizar'' ''pending'' JNull]]"

section \<open>The tasks table (schema)\<close>

text \<open>
  The columns of \<open>tasks\<close> that carry a CHECK constraint. Every one of them is nullable; a
  CHECK whose condition is NULL passes, as in SQL.
\<close>

record tasks_row =
  row_status :: "ustring option"
  row_priority :: "int option"
  row_progress_percentage :: "int option"

definition tasks_check :: "tasks_row \<Rightarrow> bool" where
  "tasks_check r \<longleftrightarrow>
     (case row_status r of None \<Rightarrow> True
      | Some s \<Rightarrow> s \<in> set (map u [''pending'', ''running'', ''completed'', ''failed'', ''cancelled'']))
   \<and> (case row_priority r of None \<Rightarrow> True | Some p \<Rightarrow> 1 \<le> p \<and> p \<le> 5)
   \<and> (case row_progress_percentage r of None \<Rightarrow> True | Some p \<Rightarrow> 0 \<le> p \<and> p \<le> 100)"

datatype db_error = CheckViolation

text \<open>
  INSERT of one row, UPDATE and DELETE of all rows matching a condition. The row of an
  INSERT is the row as it is stored, the column defaults filled in; a column that the
  statement sets to NULL is \<open>None\<close>. A statement that would leave a row violating a CHECK
  constraint fails as a whole and changes nothing.
\<close>

datatype tasks_stmt =
    Insert tasks_row
  | Update "tasks_row \<Rightarrow> bool" "tasks_row \<Rightarrow> tasks_row"
  | Delete "tasks_row \<Rightarrow> bool"

fun exec_stmt :: "tasks_row list \<Rightarrow> tasks_stmt \<Rightarrow> db_error + tasks_row list" where
  "exec_stmt tbl (Insert r) = (if tasks_check r then Inr (tbl @ [r]) else Inl CheckViolation)"
| "exec_stmt tbl (Update cond f) =
     (let tbl' = map (\<lambda>r. if cond r then f r else r) tbl
      in if list_all tasks_check tbl' then Inr tbl' else Inl CheckViolation)"
| "exec_stmt tbl (Delete cond) = Inr (filter (\<lambda>r. \<not> cond r) tbl)"

text \<open>A session: a failed statement leaves the table as it was, and the session goes on.\<close>

fun exec_stmts :: "tasks_row list \<Rightarrow> tasks_stmt list \<Rightarrow> tasks_row list" where
  "exec_stmts tbl [] = tbl"
| "exec_stmts tbl (s # ss) =
     (case exec_stmt tbl s of Inl _ \<Rightarrow> exec_stmts tbl ss | Inr tbl' \<Rightarrow> exec_stmts tbl' ss)"

section \<open>Python values, exceptions and the runtime\<close>

text \<open>
  The seed data of the \<open>tools\<close> table holds, for each tool, the Python source of its
  \<open>execute(params)\<close> function. Python values are dynamically typed; the constructors
  below are the ones the eight functions can meet. Floats are idealised as reals.
\<close>

datatype pyval =
    PNone
  | PBool bool
  | PInt int
  | PFloat real
  | PStr ustring
  | PList "pyval list"
  | PTuple "pyval list"
  | PDict "(ustring \<times> pyval) list"

text \<open>
  An exception is its class and the text \<open>str(e)\<close>. Every class here derives from
  \<open>Exception\<close>; the classes that an \<open>except\<close> clause of the sources names are kept
  apart, the rest is \<open>OtherError\<close>.
\<close>

datatype exn_class = KeyError | TypeError | AttributeError | TimeoutExpired | JSONDecodeError | OtherError

datatype pyexn = Exn exn_class ustring

type_synonym 'a py = "pyexn + 'a"

definition py_bind :: "'a py \<Rightarrow> ('a \<Rightarrow> 'b py) \<Rightarrow> 'b py" where
  "py_bind m f = (case m of Inl e \<Rightarrow> Inl e | Inr x \<Rightarrow> f x)"

type_synonym params = "ustring \<Rightarrow> pyval option"

type_synonym result = "(ustring \<times> pyval) list"

text \<open>\<open>try: body  except Exception as e: handler\<close>.\<close>

definition try_except :: "result py \<Rightarrow> (pyexn \<Rightarrow> result py) \<Rightarrow> result py" where
  "try_except body handler = (case body of Inl e \<Rightarrow> handler e | Inr r \<Rightarrow> Inr r)"

text \<open>
  \<open>params[k]\<close> raises KeyError on a missing key; \<open>params.get(k, d)\<close> does not. The text of
  a KeyError is the \<open>repr\<close> of the key: the key between apostrophes (code point 39).
\<close>

definition subscript :: "params \<Rightarrow> string \<Rightarrow> pyval py" where
  "subscript params k =
     (case params (u k) of None \<Rightarrow> Inl (Exn KeyError ([39] @ u k @ [39])) | Some v \<Rightarrow> Inr v)"

definition params_get :: "params \<Rightarrow> string \<Rightarrow> pyval \<Rightarrow> pyval" where
  "params_get params k d = (case params (u k) of None \<Rightarrow> d | Some v \<Rightarrow> v)"

record completed_process =
  stdout :: ustring
  stderr :: ustring
  returncode :: int

text \<open>
  An open text file: the lines that can be read, and the error (a decoding error, say)
  that reading past them raises, if any.
\<close>

datatype text_file = TextFile "ustring list" "pyexn option"

record stat_result =
  st_size :: int
  st_mtime :: real

record response =
  status_code :: int
  response_content :: ustring

text \<open>
  A parsed page: the string of its title element if it has one (\<open>None\<close> in Python when
  the element has no single string), the text of the page once its script and style
  elements are removed, and its anchors that have an href, as pairs of the href and the
  stripped text of the anchor; the anchors may depend on whether the script and style
  elements were removed before.
\<close>

record soup =
  soup_title :: "pyval option"
  soup_text :: ustring
  soup_links :: "bool \<Rightarrow> (pyval \<times> ustring) list"

text \<open>
  Everything the functions call outside their own source is a parameter: the operating
  system, the network, the libraries (\<open>subprocess\<close>, \<open>os\<close>, \<open>requests\<close>, \<open>bs4\<close>,
  \<open>urllib\<close>, \<open>re\<close>, \<open>json\<close>) and the parts of the interpreter that depend on Unicode
  tables or on its version (\<open>lower\<close>, \<open>repr\<close>, the wording of its own error messages).
  A call that can raise returns in \<open>py\<close>. The theorems hold for every world.
\<close>

record world =
  interp_msg :: "exn_class \<Rightarrow> string \<Rightarrow> pyval \<Rightarrow> ustring"
  py_repr :: "pyval \<Rightarrow> ustring"
  str_lower :: "ustring \<Rightarrow> ustring"
  re_split :: "ustring \<Rightarrow> ustring \<Rightarrow> ustring list"
  re_findall :: "ustring \<Rightarrow> ustring \<Rightarrow> ustring list"
  subprocess_run :: "pyval \<Rightarrow> pyval \<Rightarrow> pyval \<Rightarrow> completed_process py"
  os_path_exists :: "pyval \<Rightarrow> bool py"
  open_read :: "pyval \<Rightarrow> pyval \<Rightarrow> text_file py"
  os_path_getsize :: "pyval \<Rightarrow> int py"
  os_path_dirname :: "pyval \<Rightarrow> pyval py"
  os_makedirs :: "pyval \<Rightarrow> unit py"
  open_write :: "pyval \<Rightarrow> ustring \<Rightarrow> pyval \<Rightarrow> pyval \<Rightarrow> unit py"
  encode_len :: "pyval \<Rightarrow> pyval \<Rightarrow> int py"
  os_walk :: "pyval \<Rightarrow> (ustring \<times> ustring list \<times> ustring list) list py"
  os_listdir :: "pyval \<Rightarrow> ustring list py"
  os_path_join :: "pyval \<Rightarrow> ustring \<Rightarrow> ustring py"
  os_stat :: "ustring \<Rightarrow> stat_result py"
  os_path_isfile :: "ustring \<Rightarrow> bool"
  os_path_isdir :: "ustring \<Rightarrow> bool"
  url_quote :: "pyval \<Rightarrow> ustring py"
  requests_get :: "pyval \<Rightarrow> (ustring \<times> ustring) list \<Rightarrow> response py"
  raise_for_status :: "response \<Rightarrow> unit py"
  response_json :: "response \<Rightarrow> pyval py"
  html_parser :: "ustring \<Rightarrow> soup py"
  urljoin :: "pyval \<Rightarrow> pyval \<Rightarrow> pyval py"
  json_loads :: "pyval \<Rightarrow> pyval py"
  json_dumps :: "pyval \<Rightarrow> ustring py"

definition raise :: "world \<Rightarrow> exn_class \<Rightarrow> string \<Rightarrow> pyval \<Rightarrow> 'a py" where
  "raise w c opn v = Inl (Exn c (interp_msg w c opn v))"

definition exn_str :: "pyexn \<Rightarrow> ustring" where
  "exn_str e = (case e of Exn _ msg \<Rightarrow> msg)"

subsection \<open>Built-in operations\<close>

definition type_name :: "pyval \<Rightarrow> string" where
  "type_name v = (case v of PNone \<Rightarrow> ''NoneType'' | PBool _ \<Rightarrow> ''bool'' | PInt _ \<Rightarrow> ''int''
     | PFloat _ \<Rightarrow> ''float'' | PStr _ \<Rightarrow> ''str'' | PList _ \<Rightarrow> ''list'' | PTuple _ \<Rightarrow> ''tuple''
     | PDict _ \<Rightarrow> ''dict'')"

definition truthy :: "pyval \<Rightarrow> bool" where
  "truthy v = (case v of PNone \<Rightarrow> False | PBool b \<Rightarrow> b | PInt i \<Rightarrow> i \<noteq> 0 | PFloat x \<Rightarrow> x \<noteq> 0
     | PStr s \<Rightarrow> s \<noteq> [] | PList l \<Rightarrow> l \<noteq> [] | PTuple l \<Rightarrow> l \<noteq> [] | PDict d \<Rightarrow> d \<noteq> [])"

fun dec :: "nat \<Rightarrow> ustring" where
  "dec n = (if n < 10 then [48 + n] else dec (n div 10) @ [48 + n mod 10])"

definition str_int :: "int \<Rightarrow> ustring" where
  "str_int i = (if i < 0 then 45 # dec (nat (- i)) else dec (nat i))"

text \<open>\<open>str(v)\<close>, as an f-string formats a value.\<close>

definition py_str :: "world \<Rightarrow> pyval \<Rightarrow> ustring" where
  "py_str w v = (case v of PStr s \<Rightarrow> s | PNone \<Rightarrow> u ''None''
     | PBool b \<Rightarrow> (if b then u ''True'' else u ''False'') | PInt i \<Rightarrow> str_int i
     | _ \<Rightarrow> py_repr w v)"

definition py_len :: "world \<Rightarrow> pyval \<Rightarrow> nat py" where
  "py_len w v = (case v of PStr s \<Rightarrow> Inr (length s) | PList l \<Rightarrow> Inr (length l)
     | PTuple l \<Rightarrow> Inr (length l) | PDict d \<Rightarrow> Inr (length d) | _ \<Rightarrow> raise w TypeError ''len'' v)"

text \<open>A method of \<open>str\<close> called on a value: AttributeError unless the value is a string.\<close>

definition as_str :: "world \<Rightarrow> string \<Rightarrow> pyval \<Rightarrow> ustring py" where
  "as_str w meth v = (case v of PStr s \<Rightarrow> Inr s | _ \<Rightarrow> raise w AttributeError meth v)"

definition dict_get :: "world \<Rightarrow> pyval \<Rightarrow> string \<Rightarrow> pyval \<Rightarrow> pyval py" where
  "dict_get w d k dflt = (case d of
       PDict kvs \<Rightarrow> Inr (case map_of kvs (u k) of None \<Rightarrow> dflt | Some v \<Rightarrow> v)
     | _ \<Rightarrow> raise w AttributeError ''get'' d)"

text \<open>\<open>i >= m\<close> for an int \<open>i\<close>.\<close>

definition int_ge :: "world \<Rightarrow> int \<Rightarrow> pyval \<Rightarrow> bool py" where
  "int_ge w i m = (case m of PInt j \<Rightarrow> Inr (i \<ge> j) | PBool b \<Rightarrow> Inr (i \<ge> (if b then 1 else 0))
     | PFloat x \<Rightarrow> Inr (real_of_int i \<ge> x) | _ \<Rightarrow> raise w TypeError ''>='' m)"

text \<open>The slice \<open>xs[:n]\<close>.\<close>

definition slice_to :: "int \<Rightarrow> 'a list \<Rightarrow> 'a list" where
  "slice_to i xs = (if i \<ge> 0 then take (nat i) xs else take (nat (int (length xs) + i)) xs)"

definition slice_bound :: "world \<Rightarrow> pyval \<Rightarrow> int option py" where
  "slice_bound w n = (case n of PNone \<Rightarrow> Inr None | PInt i \<Rightarrow> Inr (Some i)
     | PBool b \<Rightarrow> Inr (Some (if b then 1 else 0)) | _ \<Rightarrow> raise w TypeError ''slice'' n)"

definition py_slice_to :: "world \<Rightarrow> pyval \<Rightarrow> pyval \<Rightarrow> pyval py" where
  "py_slice_to w xs n = (case xs of
       PList l \<Rightarrow> py_bind (slice_bound w n)
         (\<lambda>b. Inr (PList (case b of None \<Rightarrow> l | Some i \<Rightarrow> slice_to i l)))
     | PTuple l \<Rightarrow> py_bind (slice_bound w n)
         (\<lambda>b. Inr (PTuple (case b of None \<Rightarrow> l | Some i \<Rightarrow> slice_to i l)))
     | PStr s \<Rightarrow> py_bind (slice_bound w n)
         (\<lambda>b. Inr (PStr (case b of None \<Rightarrow> s | Some i \<Rightarrow> slice_to i s)))
     | _ \<Rightarrow> raise w TypeError ''subscript'' xs)"

text \<open>The elements a \<open>for\<close> loop iterates over.\<close>

definition py_iter :: "world \<Rightarrow> pyval \<Rightarrow> pyval list py" where
  "py_iter w v = (case v of PList l \<Rightarrow> Inr l | PTuple l \<Rightarrow> Inr l
     | PStr s \<Rightarrow> Inr (map (\<lambda>c. PStr [c]) s) | PDict d \<Rightarrow> Inr (map (\<lambda>kv. PStr (fst kv)) d)
     | _ \<Rightarrow> raise w TypeError ''iter'' v)"

text \<open>
  A \<open>for\<close> loop whose body appends to a list: the body returns what it appends (nothing
  on \<open>continue\<close>), and an exception ends the loop.
\<close>

fun py_for :: "('a \<Rightarrow> 'b list py) \<Rightarrow> 'a list \<Rightarrow> 'b list py" where
  "py_for f [] = Inr []"
| "py_for f (x # xs) = py_bind (f x) (\<lambda>ys. py_bind (py_for f xs) (\<lambda>zs. Inr (ys @ zs)))"

subsection \<open>String methods\<close>

definition is_space :: "nat \<Rightarrow> bool" where
  "is_space c \<longleftrightarrow> (9 \<le> c \<and> c \<le> 13) \<or> (28 \<le> c \<and> c \<le> 32) \<or> c = 133 \<or> c = 160 \<or> c = 5760
     \<or> (8192 \<le> c \<and> c \<le> 8202) \<or> c = 8232 \<or> c = 8233 \<or> c = 8239 \<or> c = 8287 \<or> c = 12288"

definition is_linebreak :: "nat \<Rightarrow> bool" where
  "is_linebreak c \<longleftrightarrow> (10 \<le> c \<and> c \<le> 13) \<or> (28 \<le> c \<and> c \<le> 30) \<or> c = 133 \<or> c = 8232 \<or> c = 8233"

definition strip :: "ustring \<Rightarrow> ustring" where
  "strip s = rev (dropWhile is_space (rev (dropWhile is_space s)))"

text \<open>\<open>s.split()\<close>: the maximal runs of characters that are not whitespace.\<close>

fun split_ws_aux :: "ustring \<Rightarrow> ustring \<Rightarrow> ustring list" where
  "split_ws_aux cur [] = (if cur = [] then [] else [cur])"
| "split_ws_aux cur (c # cs) =
     (if is_space c then (if cur = [] then split_ws_aux [] cs else cur # split_ws_aux [] cs)
      else split_ws_aux (cur @ [c]) cs)"

definition split_ws :: "ustring \<Rightarrow> ustring list" where
  "split_ws s = split_ws_aux [] s"

text \<open>\<open>s.splitlines()\<close>; the flag says that the previous character was a carriage return.\<close>

fun splitlines_aux :: "bool \<Rightarrow> ustring \<Rightarrow> ustring \<Rightarrow> ustring list" where
  "splitlines_aux cr cur [] = (if cur = [] then [] else [cur])"
| "splitlines_aux cr cur (c # cs) =
     (if cr \<and> c = 10 then splitlines_aux False cur cs
      else if is_linebreak c then cur # splitlines_aux (c = 13) [] cs
      else splitlines_aux False (cur @ [c]) cs)"

definition splitlines :: "ustring \<Rightarrow> ustring list" where
  "splitlines s = splitlines_aux False [] s"

text \<open>
  \<open>s.split(sep)\<close> for a non-empty separator; the counter is the number of characters of
  a separator just found that are still to be skipped.
\<close>

fun split_sep_aux :: "ustring \<Rightarrow> nat \<Rightarrow> ustring \<Rightarrow> ustring \<Rightarrow> ustring list" where
  "split_sep_aux sep k cur [] = [cur]"
| "split_sep_aux sep (Suc k) cur (c # cs) = split_sep_aux sep k cur cs"
| "split_sep_aux sep 0 cur (c # cs) =
     (if take (length sep) (c # cs) = sep then cur # split_sep_aux sep (length sep - 1) [] cs
      else split_sep_aux sep 0 (cur @ [c]) cs)"

definition split_sep :: "ustring \<Rightarrow> ustring \<Rightarrow> ustring list" where
  "split_sep sep s = split_sep_aux sep 0 [] s"

text \<open>\<open>sep.join(xs)\<close> and the substring test \<open>x in s\<close>.\<close>

fun join :: "ustring \<Rightarrow> ustring list \<Rightarrow> ustring" where
  "join sep [] = []"
| "join sep [x] = x"
| "join sep (x # y # ys) = x @ sep @ join sep (y # ys)"

fun contains :: "ustring \<Rightarrow> ustring \<Rightarrow> bool" where
  "contains x [] = (x = [])"
| "contains x (c # cs) = (take (length x) (c # cs) = x \<or> contains x cs)"

text \<open>\<open>x in v\<close> for a string \<open>x\<close> and any value \<open>v\<close>.\<close>

definition py_in :: "world \<Rightarrow> ustring \<Rightarrow> pyval \<Rightarrow> bool py" where
  "py_in w x v = (case v of PStr s \<Rightarrow> Inr (contains x s) | PList l \<Rightarrow> Inr (PStr x \<in> set l)
     | PTuple l \<Rightarrow> Inr (PStr x \<in> set l) | PDict d \<Rightarrow> Inr (x \<in> set (map fst d))
     | _ \<Rightarrow> raise w TypeError ''in'' v)"

text \<open>
  \<open>Counter(words).most_common(n)\<close>: the distinct words with their counts, by decreasing
  count, words of equal count in the order of their first occurrence.
\<close>

definition most_common :: "nat \<Rightarrow> ustring list \<Rightarrow> (ustring \<times> nat) list" where
  "most_common n ws =
     take n (sort_key (\<lambda>p. - int (snd p)) (map (\<lambda>x. (x, count_list ws x)) (rev (remdups (rev ws)))))"

declare dec.simps [simp del]

section \<open>The tools (seed data of the tools table)\<close>

subsection \<open>shell\_exec\<close>

definition shell_exec :: "world \<Rightarrow> params \<Rightarrow> result py" where
  "shell_exec w params =
     (case subscript params ''command'' of Inl e \<Rightarrow> Inl e | Inr command \<Rightarrow>
      let working_dir = params_get params ''working_dir'' (PStr (u ''/tmp''));
          timeout = params_get params ''timeout'' (PInt 30)
      in (case subprocess_run w command working_dir timeout of
            Inr proc \<Rightarrow>
              Inr [(u ''success'', PBool True),
                   (u ''stdout'', PStr (stdout proc)),
                   (u ''stderr'', PStr (stderr proc)),
                   (u ''return_code'', PInt (returncode proc))]
          | Inl (Exn TimeoutExpired msg) \<Rightarrow>
              Inr [(u ''success'', PBool False),
                   (u ''error'', PStr (u ''Command timed out after '' @ py_str w timeout @ u '' seconds''))]
          | Inl e \<Rightarrow>
              Inr [(u ''success'', PBool False), (u ''error'', PStr (exn_str e))]))"

subsection \<open>file\_read\<close>

text \<open>The loop \<open>for i, line in enumerate(f): if i >= max_lines: break; lines.append(line)\<close>.\<close>

fun read_lines :: "world \<Rightarrow> pyval \<Rightarrow> int \<Rightarrow> ustring list \<Rightarrow> pyexn option \<Rightarrow> ustring list py" where
  "read_lines w m i [] err = (case err of None \<Rightarrow> Inr [] | Some e \<Rightarrow> Inl e)"
| "read_lines w m i (l # ls) err =
     py_bind (int_ge w i m) (\<lambda>stop.
       if stop then Inr []
       else py_bind (read_lines w m (i + 1) ls err) (\<lambda>r. Inr (l # r)))"

definition read_all :: "ustring list \<Rightarrow> pyexn option \<Rightarrow> ustring py" where
  "read_all ls err = (case err of None \<Rightarrow> Inr (concat ls) | Some e \<Rightarrow> Inl e)"

definition file_read :: "world \<Rightarrow> params \<Rightarrow> result py" where
  "file_read w params =
     (case subscript params ''path'' of Inl e \<Rightarrow> Inl e | Inr file_path \<Rightarrow>
      let encoding = params_get params ''encoding'' (PStr (u ''utf-8''));
          max_lines = params_get params ''max_lines'' PNone
      in try_except
          (py_bind (os_path_exists w file_path) (\<lambda>ex.
             if \<not> ex
             then Inr [(u ''success'', PBool False),
                       (u ''error'', PStr (u ''File not found: '' @ py_str w file_path))]
             else py_bind (open_read w file_path encoding) (\<lambda>f.
               case f of TextFile ls err \<Rightarrow>
               py_bind (if truthy max_lines
                        then py_bind (read_lines w max_lines 0 ls err) (\<lambda>lines. Inr (concat lines))
                        else read_all ls err) (\<lambda>content.
               py_bind (os_path_getsize w file_path) (\<lambda>size.
                 Inr [(u ''success'', PBool True),
                      (u ''content'', PStr content),
                      (u ''file_size'', PInt size)])))))
          (\<lambda>e. Inr [(u ''success'', PBool False), (u ''error'', PStr (exn_str e))]))"

subsection \<open>file\_write\<close>

definition file_write :: "world \<Rightarrow> params \<Rightarrow> result py" where
  "file_write w params =
     (case subscript params ''path'' of Inl e \<Rightarrow> Inl e | Inr file_path \<Rightarrow>
      case subscript params ''content'' of Inl e \<Rightarrow> Inl e | Inr content \<Rightarrow>
      let encoding = params_get params ''encoding'' (PStr (u ''utf-8''));
          append = params_get params ''append'' (PBool False)
      in try_except
          (py_bind (os_path_dirname w file_path) (\<lambda>dir.
           py_bind (os_makedirs w dir) (\<lambda>_.
           let mode = (if truthy append then u ''a'' else u ''w'')
           in py_bind (open_write w file_path mode encoding content) (\<lambda>_.
              py_bind (encode_len w content encoding) (\<lambda>n.
                Inr [(u ''success'', PBool True),
                     (u ''bytes_written'', PInt n),
                     (u ''file_path'', file_path)])))))
          (\<lambda>e. Inr [(u ''success'', PBool False), (u ''error'', PStr (exn_str e))]))"

subsection \<open>file\_list\<close>

definition startswith_dot :: "ustring \<Rightarrow> bool" where
  "startswith_dot s = (take 1 s = u ''.'')"

definition walk_entry :: "world \<Rightarrow> pyval \<Rightarrow> ustring \<Rightarrow> ustring \<Rightarrow> pyval list py" where
  "walk_entry w show_hidden rootdir filename =
     (if \<not> truthy show_hidden \<and> startswith_dot filename then Inr []
      else py_bind (os_path_join w (PStr rootdir) filename) (\<lambda>full_path.
           py_bind (os_stat w full_path) (\<lambda>stat.
             Inr [PDict [(u ''name'', PStr filename),
                         (u ''path'', PStr full_path),
                         (u ''size'', PInt (st_size stat)),
                         (u ''is_directory'', PBool False),
                         (u ''modified'', PFloat (st_mtime stat))]])))"

definition listdir_entry :: "world \<Rightarrow> pyval \<Rightarrow> pyval \<Rightarrow> ustring \<Rightarrow> pyval list py" where
  "listdir_entry w show_hidden dir_path item =
     (if \<not> truthy show_hidden \<and> startswith_dot item then Inr []
      else py_bind (os_path_join w dir_path item) (\<lambda>full_path.
           py_bind (os_stat w full_path) (\<lambda>stat.
             Inr [PDict [(u ''name'', PStr item),
                         (u ''path'', PStr full_path),
                         (u ''size'', PInt (if os_path_isfile w full_path then st_size stat else 0)),
                         (u ''is_directory'', PBool (os_path_isdir w full_path)),
                         (u ''modified'', PFloat (st_mtime stat))]])))"

definition file_list :: "world \<Rightarrow> params \<Rightarrow> result py" where
  "file_list w params =
     (case subscript params ''path'' of Inl e \<Rightarrow> Inl e | Inr dir_path \<Rightarrow>
      let recursive = params_get params ''recursive'' (PBool False);
          show_hidden = params_get params ''show_hidden'' (PBool False)
      in try_except
          (py_bind (os_path_exists w dir_path) (\<lambda>ex.
             if \<not> ex
             then Inr [(u ''success'', PBool False),
                       (u ''error'', PStr (u ''Directory not found: '' @ py_str w dir_path))]
             else py_bind
               (if truthy recursive
                then py_bind (os_walk w dir_path)
                       (py_for (\<lambda>(rootdir, dirs, filenames). py_for (walk_entry w show_hidden rootdir) filenames))
                else py_bind (os_listdir w dir_path) (py_for (listdir_entry w show_hidden dir_path)))
               (\<lambda>files.
                 Inr [(u ''success'', PBool True),
                      (u ''files'', PList files),
                      (u ''total_count'', PInt (int (length files)))])))
          (\<lambda>e. Inr [(u ''success'', PBool False), (u ''error'', PStr (exn_str e))]))"

subsection \<open>web\_search\<close>

definition related_entry :: "world \<Rightarrow> pyval \<Rightarrow> pyval list py" where
  "related_entry w item =
     (case item of
        PDict kvs \<Rightarrow>
          if u ''Text'' \<in> set (map fst kvs)
          then py_bind (dict_get w item ''Text'' (PStr [])) (\<lambda>text.
               py_bind (py_in w (u '' - '') text) (\<lambda>dash.
               py_bind (if dash
                        then py_bind (as_str w ''split'' text) (\<lambda>s. Inr (PStr (hd (split_sep (u '' - '') s))))
                        else Inr text) (\<lambda>title.
               py_bind (dict_get w item ''FirstURL'' (PStr [])) (\<lambda>url.
                 Inr [PDict [(u ''title'', title),
                             (u ''url'', url),
                             (u ''snippet'', text),
                             (u ''type'', PStr (u ''related''))]]))))
          else Inr []
      | _ \<Rightarrow> Inr [])"

definition web_search :: "world \<Rightarrow> params \<Rightarrow> result py" where
  "web_search w params =
     (case subscript params ''query'' of Inl e \<Rightarrow> Inl e | Inr query \<Rightarrow>
      let max_results = params_get params ''max_results'' (PInt 10);
          region = params_get params ''region'' (PStr (u ''es-es''))
      in try_except
          (py_bind (url_quote w query) (\<lambda>q.
           let url = u ''https://api.duckduckgo.com/?q='' @ q @ u ''&format=json&no_html=1&skip_disambig=1''
           in py_bind (requests_get w (PStr url) []) (\<lambda>response.
              py_bind (raise_for_status w response) (\<lambda>_.
              py_bind (response_json w response) (\<lambda>data.
              py_bind (dict_get w data ''Abstract'' PNone) (\<lambda>abstract.
              py_bind (if truthy abstract
                       then py_bind (dict_get w data ''AbstractText'' (PStr [])) (\<lambda>t.
                            py_bind (dict_get w data ''AbstractURL'' (PStr [])) (\<lambda>l.
                              Inr [PDict [(u ''title'', t),
                                          (u ''url'', l),
                                          (u ''snippet'', abstract),
                                          (u ''type'', PStr (u ''abstract''))]]))
                       else Inr []) (\<lambda>results0.
              py_bind (dict_get w data ''RelatedTopics'' (PList [])) (\<lambda>topics.
              py_bind (py_slice_to w topics max_results) (\<lambda>sliced.
              py_bind (py_iter w sliced) (\<lambda>items.
              py_bind (py_for (related_entry w) items) (\<lambda>related.
              let results = results0 @ related
              in py_bind (py_slice_to w (PList results) max_results) (\<lambda>shown.
                 Inr [(u ''success'', PBool True),
                      (u ''results'', shown),
                      (u ''query'', query),
                      (u ''total_results'', PInt (int (length results)))]))))))))))))
          (\<lambda>e. Inr [(u ''success'', PBool False), (u ''error'', PStr (exn_str e))]))"

subsection \<open>browser\_navigate\<close>

definition user_agent :: "(ustring \<times> ustring) list" where
  "user_agent =
     [(u ''User-Agent'',
       u ''Mozilla/5.0 (Windows NT 10.0; Win64; x64) AppleWebKit/537.36 (KHTML, like Gecko) Chrome/91.0.4472.124 Safari/537.36'')]"

text \<open>
  The lines of the text, stripped; their phrases between double spaces, stripped; the
  non-empty ones joined by single spaces.
\<close>

definition page_text :: "ustring \<Rightarrow> ustring" where
  "page_text text =
     (let lines = map strip (splitlines text);
          chunks = concat (map (\<lambda>line. map strip (split_sep (u ''  '') line)) lines)
      in join (u '' '') (filter (\<lambda>chunk. chunk \<noteq> []) chunks))"

definition link_entry :: "world \<Rightarrow> pyval \<Rightarrow> pyval \<times> ustring \<Rightarrow> pyval list py" where
  "link_entry w url link =
     py_bind (urljoin w url (fst link)) (\<lambda>absolute_url.
       Inr [PDict [(u ''text'', PStr (snd link)), (u ''url'', absolute_url)]])"

definition browser_navigate :: "world \<Rightarrow> params \<Rightarrow> result py" where
  "browser_navigate w params =
     (case subscript params ''url'' of Inl e \<Rightarrow> Inl e | Inr url \<Rightarrow>
      let extract_text = params_get params ''extract_text'' (PBool True);
          extract_links = params_get params ''extract_links'' (PBool False)
      in try_except
          (py_bind (requests_get w url user_agent) (\<lambda>response.
           py_bind (raise_for_status w response) (\<lambda>_.
           py_bind (html_parser w (response_content response)) (\<lambda>soup.
           let result = [(u ''success'', PBool True),
                         (u ''url'', url),
                         (u ''title'', (case soup_title soup of Some s \<Rightarrow> s | None \<Rightarrow> PStr [])),
                         (u ''status_code'', PInt (status_code response))];
               result = (if truthy extract_text
                         then result @ [(u ''text'', PStr (take 5000 (page_text (soup_text soup))))]
                         else result)
           in if truthy extract_links
              then py_bind (py_for (link_entry w url) (soup_links soup (truthy extract_text))) (\<lambda>links.
                     Inr (result @ [(u ''links'', PList (take 50 links))]))
              else Inr result))))
          (\<lambda>e. Inr [(u ''success'', PBool False), (u ''error'', PStr (exn_str e))]))"

subsection \<open>text\_analyze\<close>

definition positive_words :: "ustring list" where
  "positive_words =
    [u ''bueno'', u ''excelente'', u ''genial'', u ''fant'' @ [225] @ u ''stico'',
     u ''incre'' @ [237] @ u ''ble'', u ''perfecto'', u ''maravilloso'']"

definition negative_words :: "ustring list" where
  "negative_words =
    [u ''malo'', u ''terrible'', u ''horrible'', u ''p'' @ [233] @ u ''simo'', u ''awful'',
     u ''disgusting'']"

definition spanish_words :: "ustring list" where
  "spanish_words =
    [u ''el'', u ''la'', u ''de'', u ''que'', u ''y'', u ''en'', u ''un'', u ''es'', u ''se'',
     u ''no'', u ''te'', u ''lo'', u ''le'', u ''da'', u ''su'', u ''por'', u ''son'',
     u ''con'', u ''para'', u ''al'', u ''una'', u ''del'', u ''todo'', u ''est'' @ [225],
     u ''muy'', u ''fue'', u ''han'', u ''era'', u ''sobre'', u ''ser'', u ''tiene'',
     u ''pero'', u ''ya'', u ''las'', [233] @ u ''l'', u ''hasta'', u ''puede'', u ''va'',
     u ''mi'', u ''porque'', u ''qu'' @ [233], u ''s'' @ [243] @ u ''lo'', u ''sin'',
     u ''vez'', u ''tanto'', u ''donde'', u ''mucho'', u ''hay'',
     u ''tambi'' @ [233] @ u ''n'', u ''fue'', u ''tiempo'', u ''cada'', u ''uno'', u ''hace'',
     u ''m'' @ [225] @ u ''s'', u ''como'', u ''ahora'', u ''entre'', u ''cuando'',
     u ''quiere'', u ''desde'', u ''aqu'' @ [237], u ''nos'', u ''durante'', u ''todos'',
     u ''uno'', u ''les'', u ''ni'', u ''contra'', u ''otros'', u ''ese'', u ''eso'',
     u ''ante'', u ''ellos'', u ''e'', u ''esto'', u ''m'' @ [237], u ''antes'', u ''algunos'',
     u ''qu'' @ [233], u ''unos'', u ''yo'', u ''otro'', u ''otras'', u ''otra'',
     [233] @ u ''l'', u ''tanto'', u ''esa'', u ''estos'', u ''mucho'', u ''quienes'',
     u ''nada'', u ''muchos'', u ''cual'', u ''poco'', u ''ella'', u ''estar'', u ''estas'',
     u ''algunas'', u ''algo'', u ''nosotros'', u ''mi'', u ''mis'', u ''t'' @ [250], u ''te'',
     u ''ti'', u ''tu'', u ''tus'', u ''ellas'', u ''nosotras'', u ''vosotros'',
     u ''vosotras'', u ''os'', u ''m'' @ [237] @ u ''o'', u ''m'' @ [237] @ u ''a'',
     u ''m'' @ [237] @ u ''os'', u ''m'' @ [237] @ u ''as'', u ''tuyo'', u ''tuya'',
     u ''tuyos'', u ''tuyas'', u ''suyo'', u ''suya'', u ''suyos'', u ''suyas'', u ''nuestro'',
     u ''nuestra'', u ''nuestros'', u ''nuestras'', u ''vuestro'', u ''vuestra'',
     u ''vuestros'', u ''vuestras'', u ''esos'', u ''esas'']"

definition english_words :: "ustring list" where
  "english_words =
    [u ''the'', u ''be'', u ''to'', u ''of'', u ''and'', u ''a'', u ''in'', u ''that'',
     u ''have'', u ''i'', u ''it'', u ''for'', u ''not'', u ''on'', u ''with'', u ''he'',
     u ''as'', u ''you'', u ''do'', u ''at'', u ''this'', u ''but'', u ''his'', u ''by'',
     u ''from'', u ''they'', u ''she'', u ''or'', u ''an'', u ''will'', u ''my'', u ''one'',
     u ''all'', u ''would'', u ''there'', u ''their'', u ''what'', u ''so'', u ''up'',
     u ''out'', u ''if'', u ''about'', u ''who'', u ''get'', u ''which'', u ''go'', u ''me'',
     u ''when'', u ''make'', u ''can'', u ''like'', u ''time'', u ''no'', u ''just'',
     u ''him'', u ''know'', u ''take'', u ''people'', u ''into'', u ''year'', u ''your'',
     u ''good'', u ''some'', u ''could'', u ''them'', u ''see'', u ''other'', u ''than'',
     u ''then'', u ''now'', u ''look'', u ''only'', u ''come'', u ''its'', u ''over'',
     u ''think'', u ''also'', u ''back'', u ''after'', u ''use'', u ''two'', u ''how'',
     u ''our'', u ''work'', u ''first'', u ''well'', u ''way'', u ''even'', u ''new'',
     u ''want'', u ''because'', u ''any'', u ''these'', u ''give'', u ''day'', u ''most'',
     u ''us'']"

definition summary_fields :: "world \<Rightarrow> ustring \<Rightarrow> result" where
  "summary_fields w text =
     (let sentences = re_split w (u ''[.!?]+'') text;
          sentences = filter (\<lambda>s. s \<noteq> []) (map strip sentences)
      in [(u ''sentence_count'', PInt (int (length sentences))),
          (u ''avg_sentence_length'',
             (if sentences \<noteq> []
              then PFloat (real (sum_list (map (\<lambda>s. length (split_ws s)) sentences)) / real (length sentences))
              else PInt 0)),
          (u ''first_sentences'', PList (map PStr (take 3 sentences)))])"

definition keywords_fields :: "world \<Rightarrow> ustring \<Rightarrow> result" where
  "keywords_fields w text =
     (let words = re_findall w [92, 98, 92, 119, 43, 92, 98] (str_lower w text);
          words = filter (\<lambda>x. length x > 3) words
      in [(u ''top_keywords'',
           PList (map (\<lambda>p. PTuple [PStr (fst p), PInt (int (snd p))]) (most_common 10 words)))])"

definition sentiment_fields :: "world \<Rightarrow> ustring \<Rightarrow> result" where
  "sentiment_fields w text =
     (let text_lower = str_lower w text;
          positive_count = length (filter (\<lambda>word. contains word text_lower) positive_words);
          negative_count = length (filter (\<lambda>word. contains word text_lower) negative_words);
          sentiment = (if positive_count > negative_count then u ''positive''
                       else if negative_count > positive_count then u ''negative''
                       else u ''neutral'')
      in [(u ''sentiment'', PStr sentiment),
          (u ''positive_indicators'', PInt (int positive_count)),
          (u ''negative_indicators'', PInt (int negative_count))])"

definition language_fields :: "world \<Rightarrow> ustring \<Rightarrow> result" where
  "language_fields w text =
     (let words = re_findall w [92, 98, 92, 119, 43, 92, 98] (str_lower w text);
          spanish_count = length (filter (\<lambda>word. word \<in> set spanish_words) words);
          english_count = length (filter (\<lambda>word. word \<in> set english_words) words);
          language = (if spanish_count > english_count then u ''spanish''
                      else if english_count > spanish_count then u ''english''
                      else u ''unknown'')
      in [(u ''detected_language'', PStr language),
          (u ''spanish_indicators'', PInt (int spanish_count)),
          (u ''english_indicators'', PInt (int english_count))])"

definition text_analyze :: "world \<Rightarrow> params \<Rightarrow> result py" where
  "text_analyze w params =
     (case subscript params ''text'' of Inl e \<Rightarrow> Inl e | Inr text \<Rightarrow>
      let analysis_type = params_get params ''analysis_type'' (PStr (u ''summary''))
      in try_except
          (py_bind (py_len w text) (\<lambda>n.
           py_bind (as_str w ''split'' text) (\<lambda>s.
           let result = [(u ''success'', PBool True),
                         (u ''analysis_type'', analysis_type),
                         (u ''text_length'', PInt (int n)),
                         (u ''word_count'', PInt (int (length (split_ws s))))]
           in if analysis_type = PStr (u ''summary'') then Inr (result @ summary_fields w s)
              else if analysis_type = PStr (u ''keywords'') then Inr (result @ keywords_fields w s)
              else if analysis_type = PStr (u ''sentiment'') then Inr (result @ sentiment_fields w s)
              else if analysis_type = PStr (u ''language'') then Inr (result @ language_fields w s)
              else Inr result)))
          (\<lambda>e. Inr [(u ''success'', PBool False), (u ''error'', PStr (exn_str e))]))"

subsection \<open>json\_parse\<close>

definition json_parse :: "world \<Rightarrow> params \<Rightarrow> result py" where
  "json_parse w params =
     (case subscript params ''json_string'' of Inl e \<Rightarrow> Inl e | Inr json_string \<Rightarrow>
      let pretty_print = params_get params ''pretty_print'' (PBool True)
      in case
           py_bind (json_loads w json_string) (\<lambda>parsed_data.
           let result = [(u ''success'', PBool True),
                         (u ''valid_json'', PBool True),
                         (u ''data'', parsed_data)]
           in py_bind (if truthy pretty_print
                       then py_bind (json_dumps w parsed_data) (\<lambda>s. Inr (result @ [(u ''formatted'', PStr s)]))
                       else Inr result) (\<lambda>result.
              case parsed_data of
                PDict kvs \<Rightarrow>
                  Inr (result @ [(u ''type'', PStr (u ''object'')),
                                 (u ''keys'', PList (map (\<lambda>kv. PStr (fst kv)) kvs)),
                                 (u ''key_count'', PInt (int (length kvs)))])
              | PList l \<Rightarrow>
                  Inr (result @ [(u ''type'', PStr (u ''array'')),
                                 (u ''length'', PInt (int (length l)))])
              | _ \<Rightarrow> Inr (result @ [(u ''type'', PStr (u (type_name parsed_data)))])))
         of
           Inr r \<Rightarrow> Inr r
         | Inl (Exn JSONDecodeError msg) \<Rightarrow>
             Inr [(u ''success'', PBool False),
                  (u ''valid_json'', PBool False),
                  (u ''error'', PStr (u ''JSON parsing error: '' @ msg))]
         | Inl e \<Rightarrow>
             Inr [(u ''success'', PBool False), (u ''error'', PStr (exn_str e))])"

section \<open>The rows of the tools table\<close>

datatype security_level = Safe | Moderate | Dangerous

record tool_row =
  tool_name :: string
  category :: string
  required :: "string list"
  implementation :: "world \<Rightarrow> params \<Rightarrow> result py"
  tool_security_level :: security_level
  requires_confirmation :: bool

text \<open>
  The rows, in the order of the INSERT: the name, the category, the \<open>required\<close> list of
  the function schema, the implementation code, the security level and the confirmation
  flag.
\<close>

definition tools :: "tool_row list" where
  "tools =
     [\<lparr>tool_name = ''shell_exec'', category = ''system'', required = [''command''],
       implementation = shell_exec, tool_security_level = Moderate, requires_confirmation = True\<rparr>,
      \<lparr>tool_name = ''file_read'', category = ''file'', required = [''path''],
       implementation = file_read, tool_security_level = Safe, requires_confirmation = False\<rparr>,
      \<lparr>tool_name = ''file_write'', category = ''file'', required = [''path'', ''content''],
       implementation = file_write, tool_security_level = Safe, requires_confirmation = False\<rparr>,
      \<lparr>tool_name = ''file_list'', category = ''file'', required = [''path''],
       implementation = file_list, tool_security_level = Safe, requires_confirmation = False\<rparr>,
      \<lparr>tool_name = ''web_search'', category = ''web'', required = [''query''],
       implementation = web_search, tool_security_level = Safe, requires_confirmation = False\<rparr>,
      \<lparr>tool_name = ''browser_navigate'', category = ''web'', required = [''url''],
       implementation = browser_navigate, tool_security_level = Safe, requires_confirmation = False\<rparr>,
      \<lparr>tool_name = ''text_analyze'', category = ''analysis'', required = [''text''],
       implementation = text_analyze, tool_security_level = Safe, requires_confirmation = False\<rparr>,
      \<lparr>tool_name = ''json_parse'', category = ''utility'', required = [''json_string''],
       implementation = json_parse, tool_security_level = Safe, requires_confirmation = False\<rparr>]"

text \<open>Lookup by name (the column is UNIQUE).\<close>

definition describe :: "string \<Rightarrow> tool_row option" where
  "describe name = find (\<lambda>t. tool_name t = name) tools"


section \<open>Reading a result\<close>

text \<open>
  A result is well formed when it has a boolean \<open>success\<close> and, when that is false, a
  string \<open>error\<close>.
\<close>

definition ok_result :: "result \<Rightarrow> bool" where
  "ok_result r =
     (case map_of r (u ''success'') of
        Some (PBool b) \<Rightarrow> b \<or> (case map_of r (u ''error'') of Some (PStr msg) \<Rightarrow> True | _ \<Rightarrow> False)
      | _ \<Rightarrow> False)"

text \<open>The limits of \<open>browser_navigate\<close> on a result.\<close>

definition within_limits :: "result \<Rightarrow> bool" where
  "within_limits r =
     ((case map_of r (u ''text'') of None \<Rightarrow> True | Some (PStr s) \<Rightarrow> length s \<le> 5000 | Some _ \<Rightarrow> False)
    \<and> (case map_of r (u ''links'') of None \<Rightarrow> True | Some (PList l) \<Rightarrow> length l \<le> 50 | Some _ \<Rightarrow> False))"

text \<open>A computation whose result, if it returns one, satisfies \<open>P\<close>.\<close>

definition returns :: "('a \<Rightarrow> bool) \<Rightarrow> 'a py \<Rightarrow> bool" where
  "returns P m = (case m of Inl _ \<Rightarrow> True | Inr r \<Rightarrow> P r)"

text \<open>A world in which nothing exists and every call into the system fails.\<close>

definition offline :: world where
  "offline =
     \<lparr>interp_msg = (\<lambda>c opn v. u opn),
      py_repr = (\<lambda>v. u ''?''),
      str_lower = (\<lambda>s. s),
      re_split = (\<lambda>p s. [s]),
      re_findall = (\<lambda>p s. []),
      subprocess_run = (\<lambda>c d t. Inl (Exn OtherError (u ''no shell''))),
      os_path_exists = (\<lambda>p. Inr False),
      open_read = (\<lambda>p e. Inl (Exn OtherError (u ''no file''))),
      os_path_getsize = (\<lambda>p. Inl (Exn OtherError (u ''no file''))),
      os_path_dirname = (\<lambda>p. Inr p),
      os_makedirs = (\<lambda>p. Inl (Exn OtherError (u ''read-only''))),
      open_write = (\<lambda>p m e c. Inl (Exn OtherError (u ''read-only''))),
      encode_len = (\<lambda>c e. Inr 0),
      os_walk = (\<lambda>p. Inr []),
      os_listdir = (\<lambda>p. Inr []),
      os_path_join = (\<lambda>p s. Inr s),
      os_stat = (\<lambda>p. Inl (Exn OtherError (u ''no file''))),
      os_path_isfile = (\<lambda>p. False),
      os_path_isdir = (\<lambda>p. False),
      url_quote = (\<lambda>q. Inr []),
      requests_get = (\<lambda>l h. Inl (Exn OtherError (u ''no network''))),
      raise_for_status = (\<lambda>r. Inr ()),
      response_json = (\<lambda>r. Inr PNone),
      html_parser = (\<lambda>b. Inl (Exn OtherError (u ''no parser''))),
      urljoin = (\<lambda>b h. Inr h),
      json_loads = (\<lambda>s. Inl (Exn JSONDecodeError (u ''Expecting value''))),
      json_dumps = (\<lambda>v. Inr [])\<rparr>"

text \<open>A world that serves one long page: 6000 characters of text and 60 anchors.\<close>

definition long_page :: world where
  "long_page = offline
     \<lparr>requests_get := \<lambda>l h. Inr \<lparr>status_code = 200, response_content = []\<rparr>,
      html_parser := \<lambda>b. Inr \<lparr>soup_title = Some (PStr (u ''T'')),
                               soup_text = replicate 6000 97,
                               soup_links = \<lambda>d. replicate 60 (PStr (u ''/a''), u ''a'')\<rparr>\<rparr>"

section \<open>The execution engine\<close>

text \<open>
  The sources hold the schema, the seed data and the pages; the plan compiler and the
  scheduler that the specification describes are not among them. This section models
  them from the specification (sections 3, 4.1, 4.4 and 6), on top of the tools table
  above. The confirmation gate of section 4.3 is a wait of the executor, on a step that
  the scheduler has already moved from \<open>ready\<close> to \<open>running\<close>; the sources hold no code
  for it and the model gives it no state: an executor that was never approved reports
  the failure \<open>ConfirmationTimeoutError\<close> of its running step.
\<close>

subsection \<open>Data model\<close>

text \<open>
  Modelled from the spec: the Step and Task entities of section 3 and the failure classes
  of sections 4.3 and 7 (the sources have no step table and no scheduler). A step's id is
  its position in the plan. The task status is a function of the steps and of the
  cancellation flag, as the invariants of section 3 ask.
\<close>

datatype step_status = Pending | Ready | Running | Completed | Failed | Skipped | Cancelled

datatype task_status = TaskPending | TaskRunning | TaskCompleted | TaskFailed | TaskCancelled

datatype failure =
    Timeout | ResourceExceeded | SandboxInfraFailure
  | InvalidParameters | UnauthorizedTool
  | ConfirmationTimeoutError

record step =
  step_tool :: string
  input_parameters :: params
  dependency_ids :: "nat list"
  status :: step_status
  retry_count :: nat
  step_error :: "failure option"

record engine =
  title :: string
  priority :: nat
  steps :: "step list"
  cancelled :: bool
  error_message :: "failure option"

text \<open>
  Modelled from the spec: the Tool Registry Adapter (a lookup from tool name to
  descriptor), the tools' \<open>max_retries\<close> and the bound on concurrently running steps of a
  task, none of which the sources configure.
\<close>

record config =
  registry :: "string \<Rightarrow> tool_row option"
  max_retries :: "string \<Rightarrow> nat"
  max_concurrent_steps :: nat

subsection \<open>Plan compiler\<close>

text \<open>
  Modelled from the spec: the step descriptors of section 4.1; a dependency reference is
  the position of a step in the submitted list.
\<close>

record step_descriptor =
  d_tool_name :: string
  d_input_parameters :: params
  d_dependency_refs :: "nat list"

datatype plan_error = PlanInvalidError | UnknownToolError

text \<open>
  Modelled from the spec: Kahn's algorithm of section 4.1 (the plan compiler is not in the
  sources). \<open>deps ! m\<close> lists the steps
  that step \<open>m\<close> depends on. The in-degree of a step is the number of its distinct
  dependencies; the queue starts with the steps of in-degree zero; taking a step from the
  queue visits it and decrements the in-degree of each of its dependents, which joins the
  queue when its in-degree reaches zero. The loop ends when the queue is exhausted.
\<close>

definition in_degree :: "nat list list \<Rightarrow> nat \<Rightarrow> int" where
  "in_degree deps m = int (length (remdups (deps ! m)))"

definition dependents :: "nat list list \<Rightarrow> nat \<Rightarrow> nat list" where
  "dependents deps n = filter (\<lambda>m. n \<in> set (deps ! m)) [0..<length deps]"

function kahn_loop :: "nat list list \<Rightarrow> nat list \<Rightarrow> (nat \<Rightarrow> int) \<Rightarrow> nat list \<Rightarrow> nat list" where
  "kahn_loop deps [] indeg visited = visited"
| "kahn_loop deps (n # queue) indeg visited =
     kahn_loop deps
       (queue @ filter (\<lambda>m. indeg m - 1 = 0) (dependents deps n))
       (\<lambda>m. if m \<in> set (dependents deps n) then indeg m - 1 else indeg m)
       (n # visited)"
  by pat_completeness auto
termination
proof (relation "measure (\<lambda>(deps, queue, indeg, visited).
    length queue + sum_list (map (\<lambda>m. nat (indeg m)) [0..<length deps]))")
  show "wf (measure (\<lambda>(deps, queue, indeg, visited).
    length queue + sum_list (map (\<lambda>m. nat (indeg m)) [0..<length deps])))"
    by simp
next
  fix deps :: "nat list list" and n :: nat and queue :: "nat list"
    and indeg :: "nat \<Rightarrow> int" and visited :: "nat list"
  have count: "length (filter P xs) = sum_list (map (\<lambda>x. if P x then 1 else 0) xs)"
    for P :: "nat \<Rightarrow> bool" and xs
    by (induction xs) simp_all
  have pointwise: "sum_list (map f xs) + sum_list (map g xs) \<le> sum_list (map h xs)"
    if "\<forall>x \<in> set xs. f x + g x \<le> h x" for f g h :: "nat \<Rightarrow> nat" and xs
    using that by (induction xs) (simp_all add: add_mono algebra_simps)
  let ?P = "\<lambda>m. n \<in> set (deps ! m)"
  let ?ups = "[0..<length deps]"
  let ?indeg' = "\<lambda>m. if m \<in> set (dependents deps n) then indeg m - 1 else indeg m"
  have "length (filter (\<lambda>m. indeg m - 1 = 0) (dependents deps n))
      = sum_list (map (\<lambda>m. if ?P m \<and> indeg m - 1 = 0 then 1 else 0) ?ups)"
    by (simp add: dependents_def count conj_commute)
  moreover have "sum_list (map (\<lambda>m. nat (?indeg' m)) ?ups)
      + sum_list (map (\<lambda>m. if ?P m \<and> indeg m - 1 = 0 then 1 else 0) ?ups)
      \<le> sum_list (map (\<lambda>m. nat (indeg m)) ?ups)"
    by (rule pointwise) (auto simp: dependents_def)
  ultimately show "((deps, queue @ filter (\<lambda>m. indeg m - 1 = 0) (dependents deps n), ?indeg', n # visited),
      (deps, n # queue, indeg, visited))
    \<in> measure (\<lambda>(deps, queue, indeg, visited).
        length queue + sum_list (map (\<lambda>m. nat (indeg m)) [0..<length deps]))"
    by simp
qed

text \<open>Modelled from the spec: the steps that Kahn's algorithm visits (section 4.1).\<close>

definition kahn :: "nat list list \<Rightarrow> nat list" where
  "kahn deps =
     kahn_loop deps (filter (\<lambda>m. in_degree deps m = 0) [0..<length deps]) (in_degree deps) []"

text \<open>
  Modelled from the spec: plan compilation (section 4.1). A step left unvisited by Kahn's
  algorithm signals a cycle: PlanInvalidError. A tool name unknown to the registry:
  UnknownToolError. The spec names the two validations and does not say which error a plan
  failing both gets; its cycle-rejection property (section 8) is unconditional, so the
  graph is validated first. A compiled step is \<open>ready\<close> when it has no dependencies and
  \<open>pending\<close> otherwise.
\<close>

definition compile_step :: "step_descriptor \<Rightarrow> step" where
  "compile_step d =
     \<lparr>step_tool = d_tool_name d,
      input_parameters = d_input_parameters d,
      dependency_ids = d_dependency_refs d,
      status = (if d_dependency_refs d = [] then Ready else Pending),
      retry_count = 0,
      step_error = None\<rparr>"

text \<open>
  Modelled from the spec: the validations of section 4.1 and their errors, in the order
  explained above.
\<close>

definition compile_plan :: "(string \<Rightarrow> tool_row option) \<Rightarrow> step_descriptor list \<Rightarrow> plan_error + step list" where
  "compile_plan reg descs =
     (if \<not> list_all (\<lambda>m. m \<in> set (kahn (map d_dependency_refs descs))) [0..<length descs]
      then Inl PlanInvalidError
      else if \<not> list_all (\<lambda>d. reg (d_tool_name d) \<noteq> None) descs
      then Inl UnknownToolError
      else Inr (map compile_step descs))"

text \<open>
  Modelled from the spec: \<open>submit\<close> of section 6 on a store of tasks by id. A rejected plan
  leaves the store as it was.
\<close>

definition new_task :: "string \<Rightarrow> nat \<Rightarrow> step list \<Rightarrow> engine" where
  "new_task t p ss =
     \<lparr>title = t, priority = p, steps = ss, cancelled = False, error_message = None\<rparr>"

definition submit ::
  "(string \<Rightarrow> tool_row option) \<Rightarrow> (nat \<Rightarrow> engine option) \<Rightarrow> nat \<Rightarrow> string \<Rightarrow> nat \<Rightarrow> step_descriptor list
    \<Rightarrow> (plan_error + unit) \<times> (nat \<Rightarrow> engine option)" where
  "submit reg store tid t p descs =
     (case compile_plan reg descs of
        Inl e \<Rightarrow> (Inl e, store)
      | Inr ss \<Rightarrow> (Inr (), store(tid \<mapsto> new_task t p ss)))"

text \<open>
  The dependency relation of a plan, and what it means for it to contain a cycle: a step
  that reaches itself along one or more dependencies.
\<close>

definition dep_rel :: "nat list list \<Rightarrow> (nat \<times> nat) set" where
  "dep_rel deps = {(m, d). m < length deps \<and> d \<in> set (deps ! m)}"

definition has_cycle :: "nat list list \<Rightarrow> bool" where
  "has_cycle deps \<longleftrightarrow> (\<exists>m. (m, m) \<in> (dep_rel deps)\<^sup>+)"

text \<open>A list in which every element comes before everything it depends on.\<close>

fun dep_ordered :: "nat list list \<Rightarrow> nat list \<Rightarrow> bool" where
  "dep_ordered deps [] = True"
| "dep_ordered deps (n # rest) = (set (deps ! n) \<subseteq> set rest \<and> dep_ordered deps rest)"

text \<open>The invariant of the loop of Kahn's algorithm.\<close>

definition kahn_inv :: "nat list list \<Rightarrow> nat list \<Rightarrow> (nat \<Rightarrow> int) \<Rightarrow> nat list \<Rightarrow> bool" where
  "kahn_inv deps queue indeg visited \<longleftrightarrow>
     (\<forall>m < length deps. indeg m = int (card (set (deps ! m) - set visited)))
   \<and> (\<forall>m \<in> set queue. m < length deps \<and> indeg m = 0)
   \<and> (\<forall>m \<in> set visited. m < length deps)
   \<and> distinct (queue @ visited)
   \<and> dep_ordered deps visited
   \<and> (\<forall>m < length deps. indeg m = 0 \<longrightarrow> m \<in> set queue \<union> set visited)"

subsection \<open>Scheduler\<close>

text \<open>
  Modelled from the spec: the statuses of the step state machine of section 4.4: the
  terminal ones, the ones still to come to an end, and the ones not yet started.
\<close>

definition terminal :: "step_status \<Rightarrow> bool" where
  "terminal st \<longleftrightarrow> st = Completed \<or> st = Failed \<or> st = Skipped \<or> st = Cancelled"

definition active :: "step_status \<Rightarrow> bool" where
  "active st \<longleftrightarrow> st = Pending \<or> st = Ready \<or> st = Running"

definition waiting :: "step_status \<Rightarrow> bool" where
  "waiting st \<longleftrightarrow> st = Pending \<or> st = Ready"

text \<open>
  Modelled from the spec: the task status (section 4.4, item 4, and the invariants of
  section 3): cancelled once cancelled; otherwise terminal when no step is pending, ready
  or running, failed if a step failed and completed if none did.
\<close>

definition task_status_of :: "engine \<Rightarrow> task_status" where
  "task_status_of s =
     (if cancelled s then TaskCancelled
      else if list_ex (\<lambda>x. active (status x)) (steps s)
      then (if list_all (\<lambda>x. waiting (status x)) (steps s) then TaskPending else TaskRunning)
      else if list_ex (\<lambda>x. status x = Failed) (steps s) then TaskFailed
      else TaskCompleted)"

text \<open>Modelled from the spec: readiness (section 4.4, item 1).\<close>

definition deps_completed :: "step list \<Rightarrow> nat \<Rightarrow> bool" where
  "deps_completed ss i =
     list_all (\<lambda>d. d < length ss \<and> status (ss ! d) = Completed) (dependency_ids (ss ! i))"

text \<open>
  Modelled from the spec: when the scheduler may move a step to \<open>running\<close> (section 4.4,
  items 1 and 2; section 3): the task is neither cancelled nor terminal, the step is
  pending or ready, its dependencies are all completed, and a slot is free.
\<close>

definition dispatchable :: "config \<Rightarrow> engine \<Rightarrow> nat \<Rightarrow> bool" where
  "dispatchable cfg s i \<longleftrightarrow>
     i < length (steps s)
   \<and> (task_status_of s = TaskPending \<or> task_status_of s = TaskRunning)
   \<and> waiting (status (steps s ! i))
   \<and> deps_completed (steps s) i
   \<and> length (filter (\<lambda>x. status x = Running) (steps s)) < max_concurrent_steps cfg"

text \<open>Modelled from the spec: the transient failures of section 7.\<close>

definition transient :: "failure \<Rightarrow> bool" where
  "transient f \<longleftrightarrow> f = Timeout \<or> f = ResourceExceeded \<or> f = SandboxInfraFailure"

text \<open>
  Modelled from the spec: the cascade of section 4.4, item 3. \<open>depends_on ss k j i\<close>: step
  \<open>j\<close> depends on step \<open>i\<close> along at most \<open>k\<close> dependencies.
\<close>

fun depends_on :: "step list \<Rightarrow> nat \<Rightarrow> nat \<Rightarrow> nat \<Rightarrow> bool" where
  "depends_on ss 0 j i = False"
| "depends_on ss (Suc k) j i =
     (i \<in> set (dependency_ids (ss ! j))
      \<or> list_ex (\<lambda>d. d < length ss \<and> depends_on ss k d i) (dependency_ids (ss ! j)))"

text \<open>
  Modelled from the spec: the pending and ready steps that depend on step \<open>i\<close>, directly
  or not, become skipped (section 4.4, item 3).
\<close>

definition cascade :: "nat \<Rightarrow> step list \<Rightarrow> step list" where
  "cascade i ss =
     map (\<lambda>j. if waiting (status (ss ! j)) \<and> depends_on ss (length ss) j i
              then (ss ! j)\<lparr>status := Skipped\<rparr> else ss ! j) [0..<length ss]"

text \<open>
  Modelled from the spec: after a completion, the pending steps whose dependencies are
  all completed become ready (section 4.4, item 3).
\<close>

definition promote :: "step list \<Rightarrow> step list" where
  "promote ss =
     map (\<lambda>j. if status (ss ! j) = Pending \<and> deps_completed ss j
              then (ss ! j)\<lparr>status := Ready\<rparr> else ss ! j) [0..<length ss]"

text \<open>
  Modelled from the spec: a step fails for good (section 4.4, item 3, and section 7): its
  error is recorded, its dependents are skipped, and the first fatal error of the task is
  kept.
\<close>

definition fail_step :: "nat \<Rightarrow> failure \<Rightarrow> engine \<Rightarrow> engine" where
  "fail_step i f s =
     s\<lparr>steps := cascade i ((steps s)[i := (steps s ! i)\<lparr>status := Failed, step_error := Some f\<rparr>]),
       error_message := (case error_message s of None \<Rightarrow> Some f | Some e \<Rightarrow> Some e)\<rparr>"

text \<open>
  Modelled from the spec: what happens to a task (sections 4.3, 4.4 and 6). The scheduler
  dispatches a step; an executor reports success or a classified failure of a running
  step; the task is cancelled; a failed task is retried. An event that does not apply
  leaves the state as it was.
\<close>

datatype event =
    Dispatch nat
  | StepSucceeded nat
  | StepFailed nat failure
  | CancelTask
  | RetryTask

fun apply_event :: "config \<Rightarrow> engine \<Rightarrow> event \<Rightarrow> engine" where
  "apply_event cfg s (Dispatch i) =
     (if dispatchable cfg s i
      then s\<lparr>steps := (steps s)[i := (steps s ! i)\<lparr>status := Running\<rparr>]\<rparr>
      else s)"
| "apply_event cfg s (StepSucceeded i) =
     (if i < length (steps s) \<and> status (steps s ! i) = Running
      then s\<lparr>steps := promote ((steps s)[i := (steps s ! i)\<lparr>status := Completed\<rparr>])\<rparr>
      else s)"
| "apply_event cfg s (StepFailed i f) =
     (if i < length (steps s) \<and> status (steps s ! i) = Running
      then (if transient f \<and> retry_count (steps s ! i) < max_retries cfg (step_tool (steps s ! i))
            then s\<lparr>steps := (steps s)[i := (steps s ! i)
                     \<lparr>status := Ready, retry_count := retry_count (steps s ! i) + 1\<rparr>]\<rparr>
            else fail_step i f s)
      else s)"
| "apply_event cfg s CancelTask =
     (if task_status_of s = TaskPending \<or> task_status_of s = TaskRunning
      then s\<lparr>cancelled := True,
             steps := map (\<lambda>x. if terminal (status x) then x else x\<lparr>status := Cancelled\<rparr>) (steps s)\<rparr>
      else s)"
| "apply_event cfg s RetryTask =
     (if task_status_of s = TaskFailed
      then s\<lparr>steps := map (\<lambda>x. if status x = Failed \<or> status x = Skipped
                                then x\<lparr>status := Ready, step_error := None\<rparr> else x) (steps s),
             error_message := None\<rparr>
      else s)"

text \<open>Modelled from the spec: the state of a task after a sequence of events.\<close>

fun run :: "config \<Rightarrow> engine \<Rightarrow> event list \<Rightarrow> engine" where
  "run cfg s [] = s"
| "run cfg s (ev # evs) = run cfg (apply_event cfg s ev) evs"

text \<open>
  The engine over the tools table of the sources; no retries, four slots.
\<close>

definition seeded :: config where
  "seeded = \<lparr>registry = describe, max_retries = (\<lambda>t. 0), max_concurrent_steps = 4\<rparr>"

text \<open>Every running step has all its dependencies completed.\<close>

definition running_ok :: "engine \<Rightarrow> bool" where
  "running_ok s \<longleftrightarrow>
     (\<forall>i < length (steps s). status (steps s ! i) = Running \<longrightarrow> deps_completed (steps s) i)"

text \<open>
  Two plans: a file is read and then a shell command, depending on it, is run; and the
  plan [A depends on B, B depends on A].
\<close>

definition plan_ab :: "step_descriptor list" where
  "plan_ab =
     [\<lparr>d_tool_name = ''file_read'', d_input_parameters = Map.empty, d_dependency_refs = []\<rparr>,
      \<lparr>d_tool_name = ''shell_exec'', d_input_parameters = Map.empty, d_dependency_refs = [0]\<rparr>]"

definition plan_cycle :: "step_descriptor list" where
  "plan_cycle =
     [\<lparr>d_tool_name = ''file_read'', d_input_parameters = Map.empty, d_dependency_refs = [1]\<rparr>,
      \<lparr>d_tool_name = ''file_write'', d_input_parameters = Map.empty, d_dependency_refs = [0]\<rparr>]"

text \<open>The states of a task compiled from the first plan, by the statuses of its two steps.\<close>

definition steps_ab :: "step_status \<Rightarrow> step_status \<Rightarrow> step list" where
  "steps_ab a b =
     [\<lparr>step_tool = ''file_read'', input_parameters = Map.empty, dependency_ids = [],
       status = a, retry_count = 0, step_error = None\<rparr>,
      \<lparr>step_tool = ''shell_exec'', input_parameters = Map.empty, dependency_ids = [0],
       status = b, retry_count = 0, step_error = None\<rparr>]"

definition task_ab :: "step list \<Rightarrow> engine" where
  "task_ab ss =
     \<lparr>title = ''t'', priority = 1, steps = ss, cancelled = False, error_message = None\<rparr>"

section \<open>Properties of the tasks page\<close>

lemma u_eq_iff [simp]: "u a = u b \<longleftrightarrow> a = b"
  by (simp add: u_def inj_on_def)

lemma getProp_upd_same [simp]: "getProp (m(u k \<mapsto> v)) k = v"
  by (simp add: getProp_def)

lemma getProp_upd_other [simp]: "k' \<noteq> k \<Longrightarrow> getProp (m(u k' \<mapsto> v)) k = getProp m k"
  by (simp add: getProp_def)

lemma getProp_add_id: "getProp t ''id'' = getProp p ''id'' \<Longrightarrow> getProp (t ++ p) ''id'' = getProp p ''id''"
  by (auto simp: getProp_def map_add_def split: option.splits)

lemma map_add_twice: "(t ++ p) ++ p = t ++ p"
  by (rule ext) (simp add: map_add_def split: option.splits)

lemma exec_stmt_check:
  "list_all tasks_check tbl \<Longrightarrow> exec_stmt tbl s = Inr tbl' \<Longrightarrow> list_all tasks_check tbl'"
  by (cases s) (auto simp: Let_def list_all_iff split: if_splits)

lemma exec_stmts_check:
  "list_all tasks_check tbl \<Longrightarrow> list_all tasks_check (exec_stmts tbl ss)"
proof (induction ss arbitrary: tbl)
  case Nil
  then show ?case by simp
next
  case (Cons s ss)
  show ?case
  proof (cases "exec_stmt tbl s")
    case (Inl e)
    with Cons show ?thesis by simp
  next
    case (Inr tbl')
    with Cons.prems have "list_all tasks_check tbl'" by (rule exec_stmt_check)
    with Inr Cons.IH show ?thesis by simp
  qed
qed


lemma stepStatuses_upd [simp]: "k \<noteq> ''steps'' \<Longrightarrow> stepStatuses (t(u k \<mapsto> v)) = stepStatuses t"
  by (simp add: stepStatuses_def)

subsection \<open>Cancelling a task\<close>

text \<open>
  C4 (amended). After \<open>cancelTask(taskId)\<close> has been confirmed, every task whose id is
  \<open>taskId\<close> has status \<open>cancelled\<close> and keeps every other property, its steps and their
  statuses included; tasks with another id are unchanged; when the dialog is declined
  nothing changes.
\<close>

theorem cancelTask_effect:
  assumes "i < length prev"
  shows "cancelTask False taskId prev = prev
    \<and> length (cancelTask True taskId prev) = length prev
    \<and> (getProp (prev ! i) ''id'' = taskId \<longrightarrow>
          getProp (cancelTask True taskId prev ! i) ''status'' = JStr (u ''cancelled'')
        \<and> stepStatuses (cancelTask True taskId prev ! i) = stepStatuses (prev ! i)
        \<and> (\<forall>k. k \<noteq> ''status'' \<longrightarrow>
              getProp (cancelTask True taskId prev ! i) k = getProp (prev ! i) k))
    \<and> (getProp (prev ! i) ''id'' \<noteq> taskId \<longrightarrow> cancelTask True taskId prev ! i = prev ! i)"
  using assms by (simp add: cancelTask_def)

theorem cancelTask_effect_witness:
  "getProp (cancelTask True (JStr (u ''2'')) [taskSql, taskApi] ! 1) ''status'' = JStr (u ''cancelled'')
   \<and> stepStatuses (cancelTask True (JStr (u ''2'')) [taskSql, taskApi] ! 1) = stepStatuses taskApi
   \<and> cancelTask True (JStr (u ''2'')) [taskSql, taskApi] ! 0 = taskSql"
  using cancelTask_effect [of 1 "[taskSql, taskApi]" "JStr (u ''2'')"]
    cancelTask_effect [of 0 "[taskSql, taskApi]" "JStr (u ''2'')"]
  by (simp add: taskApi_def taskSql_def getProp_def)

text \<open>
  The claim as stated fails: the third step of the running task is \<open>running\<close> before
  \<open>cancelTask\<close> and still \<open>running\<close>, not \<open>cancelled\<close>, after it; and a \<open>task_updated\<close>
  event that arrives after the cancellation shows the fourth step, \<open>pending\<close> until then,
  as \<open>running\<close>.
\<close>

theorem cancelTask_counterexample:
  "getProp (hd (cancelTask True (JStr (u ''2'')) [taskApi])) ''status'' = JStr (u ''cancelled'')
   \<and> stepStatuses (hd (cancelTask True (JStr (u ''2'')) [taskApi])) ! 2 = JStr (u ''running'')
   \<and> stepStatuses (hd (cancelTask True (JStr (u ''2'')) [taskApi])) ! 3 = JStr (u ''pending'')
   \<and> stepStatuses (hd (handleTaskUpdate laterUpdate (cancelTask True (JStr (u ''2'')) [taskApi]))) ! 3
      = JStr (u ''running'')"
  by (simp add: cancelTask_def handleTaskUpdate_def laterUpdate_def taskApi_def getProp_def
      stepStatuses_def stepStatus_def mkStep_def)

subsection \<open>Retrying a task\<close>

text \<open>
  C5 (amended). \<open>retryTask(taskId)\<close> sets, on every task whose id is \<open>taskId\<close>, the status
  to \<open>pending\<close>, the progress to 0 and the error message to null, whatever the status of
  the task was; every other property, the steps and their statuses included, is kept;
  tasks with another id are unchanged.
\<close>

theorem retryTask_effect:
  assumes "i < length prev"
  shows "length (retryTask taskId prev) = length prev
    \<and> (getProp (prev ! i) ''id'' = taskId \<longrightarrow>
          getProp (retryTask taskId prev ! i) ''status'' = JStr (u ''pending'')
        \<and> getProp (retryTask taskId prev ! i) ''progress'' = JNum 0
        \<and> getProp (retryTask taskId prev ! i) ''error_message'' = JNull
        \<and> stepStatuses (retryTask taskId prev ! i) = stepStatuses (prev ! i)
        \<and> (\<forall>k. k \<notin> {''status'', ''progress'', ''error_message''} \<longrightarrow>
              getProp (retryTask taskId prev ! i) k = getProp (prev ! i) k))
    \<and> (getProp (prev ! i) ''id'' \<noteq> taskId \<longrightarrow> retryTask taskId prev ! i = prev ! i)"
  using assms by (auto simp: retryTask_def)

theorem retryTask_effect_witness:
  "getProp (retryTask (JStr (u ''3'')) [taskSql, taskApi] ! 0) ''status'' = JStr (u ''pending'')
   \<and> getProp (retryTask (JStr (u ''3'')) [taskSql, taskApi] ! 0) ''progress'' = JNum 0
   \<and> getProp (retryTask (JStr (u ''3'')) [taskSql, taskApi] ! 0) ''error_message'' = JNull
   \<and> stepStatuses (retryTask (JStr (u ''3'')) [taskSql, taskApi] ! 0) = stepStatuses taskSql
   \<and> retryTask (JStr (u ''3'')) [taskSql, taskApi] ! 1 = taskApi"
  using retryTask_effect [of 0 "[taskSql, taskApi]" "JStr (u ''3'')"]
    retryTask_effect [of 1 "[taskSql, taskApi]" "JStr (u ''3'')"]
  by (simp add: taskApi_def taskSql_def getProp_def)

text \<open>
  The claim as stated fails: the first step of the failed task is \<open>failed\<close> before
  \<open>retryTask\<close> and still \<open>failed\<close>, not \<open>ready\<close>, after it.
\<close>

theorem retryTask_counterexample:
  "getProp taskSql ''status'' = JStr (u ''failed'')
   \<and> stepStatuses taskSql ! 0 = JStr (u ''failed'')
   \<and> stepStatuses (hd (retryTask (JStr (u ''3'')) [taskSql])) ! 0 = JStr (u ''failed'')"
  by (simp add: retryTask_def taskSql_def getProp_def stepStatuses_def stepStatus_def mkStep_def)

subsection \<open>Progress\<close>

text \<open>
  C7 (amended). After a \<open>task_updated\<close> event every task whose id is the id of the event's
  task shows the progress value that the event carries, and the progress it showed
  before when the event carries none. After a \<open>task_progress\<close> event every task whose id
  is the event's \<open>task_id\<close> shows the progress value carried by the event, and its steps
  are as before. In neither case is the value computed from the steps. From an empty
  \<open>tasks\<close> table, whatever statements are executed, every stored \<open>progress_percentage\<close>
  is NULL or lies between 0 and 100 inclusive.
\<close>

theorem progress_effect:
  assumes "i < length prev"
  shows "(getProp (prev ! i) ''id'' = getProp (task td) ''id'' \<longrightarrow>
            getProp (handleTaskUpdate td prev ! i) ''progress''
              = (case task td (u ''progress'') of
                   None \<Rightarrow> getProp (prev ! i) ''progress''
                 | Some v \<Rightarrow> v))
    \<and> (getProp (prev ! i) ''id'' = task_id pd \<longrightarrow>
            getProp (handleTaskProgress pd prev ! i) ''progress'' = progress pd
          \<and> stepStatuses (handleTaskProgress pd prev ! i) = stepStatuses (prev ! i))
    \<and> (\<forall>r \<in> set (exec_stmts [] ss). \<forall>p. row_progress_percentage r = Some p \<longrightarrow> 0 \<le> p \<and> p \<le> 100)"
proof -
  have "list_all tasks_check (exec_stmts [] ss)"
    by (rule exec_stmts_check) simp
  then have "\<forall>r \<in> set (exec_stmts [] ss). tasks_check r"
    by (simp add: list_all_iff)
  then have db: "\<forall>r \<in> set (exec_stmts [] ss). \<forall>p. row_progress_percentage r = Some p \<longrightarrow> 0 \<le> p \<and> p \<le> 100"
    by (auto simp: tasks_check_def)
  have upd: "getProp (prev ! i) ''id'' = getProp (task td) ''id'' \<longrightarrow>
      getProp (handleTaskUpdate td prev ! i) ''progress''
        = (case task td (u ''progress'') of
             None \<Rightarrow> getProp (prev ! i) ''progress''
           | Some v \<Rightarrow> v)"
    using assms
    by (simp add: handleTaskUpdate_def getProp_def map_add_def split: option.splits)
  have prog: "getProp (prev ! i) ''id'' = task_id pd \<longrightarrow>
      getProp (handleTaskProgress pd prev ! i) ''progress'' = progress pd
    \<and> stepStatuses (handleTaskProgress pd prev ! i) = stepStatuses (prev ! i)"
    using assms by (simp add: handleTaskProgress_def)
  from upd prog db show ?thesis by blast
qed

theorem progress_effect_witness:
  "getProp (handleTaskUpdate laterUpdate [taskApi] ! 0) ''progress'' = JNum 65
   \<and> getProp (handleTaskProgress \<lparr>task_id = JStr (u ''2''), progress = JNum 40, current_step = JNull\<rparr>
      [taskApi] ! 0) ''progress'' = JNum 40
   \<and> map row_progress_percentage (exec_stmts []
          [Insert \<lparr>row_status = None, row_priority = None, row_progress_percentage = Some 40\<rparr>,
           Insert \<lparr>row_status = None, row_priority = None, row_progress_percentage = Some 140\<rparr>,
           Update (\<lambda>r. True) (\<lambda>r. r\<lparr>row_progress_percentage := Some 101\<rparr>)]) = [Some 40]
   \<and> (0::int) \<le> 40 \<and> (40::int) \<le> 100"
  using progress_effect [where i = 0 and prev = "[taskApi]" and td = laterUpdate
      and pd = "\<lparr>task_id = JStr (u ''2''), progress = JNum 40, current_step = JNull\<rparr>"
      and ss = "[Insert \<lparr>row_status = None, row_priority = None, row_progress_percentage = Some 40\<rparr>,
        Insert \<lparr>row_status = None, row_priority = None, row_progress_percentage = Some 140\<rparr>,
        Update (\<lambda>r. True) (\<lambda>r. r\<lparr>row_progress_percentage := Some 101\<rparr>)]"]
  by (simp add: taskApi_def laterUpdate_def getProp_def tasks_check_def)

text \<open>
  The claim as stated fails. A \<open>task_updated\<close> event reports the third step of the running
  task, \<open>running\<close> until then, as \<open>completed\<close>: three of the six steps are now completed,
  and the task still shows 65, not 3 / 6 * 100. And a row inserted with a NULL
  \<open>progress_percentage\<close> is stored: its progress is not between 0 and 100.
\<close>

theorem progress_counterexample:
  "stepStatuses taskApi ! 2 = JStr (u ''running'')
   \<and> stepStatuses (hd (handleTaskUpdate laterUpdate [taskApi])) ! 2 = JStr (u ''completed'')
   \<and> completedSteps (hd (handleTaskUpdate laterUpdate [taskApi])) = 3
   \<and> totalSteps (hd (handleTaskUpdate laterUpdate [taskApi])) = 6
   \<and> getProp (hd (handleTaskUpdate laterUpdate [taskApi])) ''progress'' = JNum 65
   \<and> JNum 65 \<noteq> JNum (3 / 6 * 100)
   \<and> map row_progress_percentage (exec_stmts []
          [Insert \<lparr>row_status = None, row_priority = None, row_progress_percentage = None\<rparr>]) = [None]"
  by (simp add: handleTaskUpdate_def laterUpdate_def taskApi_def getProp_def stepStatuses_def
      stepStatus_def mkStep_def completedSteps_def totalSteps_def tasks_check_def)

subsection \<open>Delivering an event twice\<close>

text \<open>
  C8. Applying the same \<open>task_updated\<close> event, or the same \<open>task_progress\<close> event, a
  second time leaves the whole array of tasks, and so every progress value and every
  step status, as the first application left it.
\<close>

theorem event_idempotent:
  "handleTaskUpdate td (handleTaskUpdate td prev) = handleTaskUpdate td prev
   \<and> handleTaskProgress pd (handleTaskProgress pd prev) = handleTaskProgress pd prev"
proof
  have "(if getProp (if getProp t ''id'' = getProp (task td) ''id'' then t ++ task td else t) ''id''
            = getProp (task td) ''id''
         then (if getProp t ''id'' = getProp (task td) ''id'' then t ++ task td else t) ++ task td
         else (if getProp t ''id'' = getProp (task td) ''id'' then t ++ task td else t))
      = (if getProp t ''id'' = getProp (task td) ''id'' then t ++ task td else t)" for t
    by (simp add: getProp_add_id map_add_twice)
  then show "handleTaskUpdate td (handleTaskUpdate td prev) = handleTaskUpdate td prev"
    by (simp add: handleTaskUpdate_def comp_def)
next
  show "handleTaskProgress pd (handleTaskProgress pd prev) = handleTaskProgress pd prev"
    by (simp add: handleTaskProgress_def comp_def)
qed

section \<open>Properties of the tools\<close>


lemma ok_success [simp]: "ok_result ((u ''success'', PBool True) # fs)"
  by (simp add: ok_result_def)

lemma ok_failure [simp]: "ok_result ((u ''success'', PBool False) # (u ''error'', PStr msg) # fs)"
  by (simp add: ok_result_def)

lemma ok_failure_json [simp]:
  "ok_result [(u ''success'', PBool False), (u ''valid_json'', b), (u ''error'', PStr msg)]"
  by (simp add: ok_result_def)

lemma returns_Inr [simp]: "returns P (Inr r) = P r"
  by (simp add: returns_def)

lemma returns_Inl [simp]: "returns P (Inl e)"
  by (simp add: returns_def)

lemma returns_bind: "(\<And>x. m = Inr x \<Longrightarrow> returns P (f x)) \<Longrightarrow> returns P (py_bind m f)"
  by (cases m) (simp_all add: py_bind_def)

lemma returns_if: "(c \<Longrightarrow> returns P a) \<Longrightarrow> (\<not> c \<Longrightarrow> returns P b) \<Longrightarrow> returns P (if c then a else b)"
  by simp



lemma try_except_returns:
  assumes "returns P body" and "\<And>e. returns P (handler e)"
  shows "returns P (try_except body handler)"
  using assms by (cases body) (simp_all add: try_except_def)











subsection \<open>Every tool returns a well-formed result\<close>


text \<open>
  The required parameters are read before the \<open>try\<close>: without the first of them the
  KeyError leaves the function.
\<close>

lemma execute_missing_required:
  assumes "t \<in> set tools" and "params (u (hd (required t))) = None"
  shows "implementation t w params = Inl (Exn KeyError ([39] @ u (hd (required t)) @ [39]))"
  using assms
  by (auto simp: tools_def shell_exec_def file_read_def file_write_def file_list_def web_search_def
      browser_navigate_def text_analyze_def json_parse_def subscript_def)



subsection \<open>The outcomes of shell\_exec\<close>

text \<open>
  C6. For every invocation of \<open>shell_exec\<close> with a command: when the subprocess exceeds
  the timeout (the configured one, or 30 seconds), \<open>execute\<close> returns the failure
  \<open>{success: False, error: "Command timed out after <timeout> seconds"}\<close> and raises
  nothing; when the subprocess completes, it returns \<open>success: True\<close> with the standard
  output, the standard error and the return code.
\<close>

theorem shell_exec_outcomes:
  assumes "params (u ''command'') = Some command"
  shows "(subprocess_run w command (params_get params ''working_dir'' (PStr (u ''/tmp'')))
            (params_get params ''timeout'' (PInt 30)) = Inl (Exn TimeoutExpired msg)
          \<longrightarrow> shell_exec w params =
              Inr [(u ''success'', PBool False),
                   (u ''error'', PStr (u ''Command timed out after ''
                      @ py_str w (params_get params ''timeout'' (PInt 30)) @ u '' seconds''))])
    \<and> (subprocess_run w command (params_get params ''working_dir'' (PStr (u ''/tmp'')))
            (params_get params ''timeout'' (PInt 30)) = Inr proc
          \<longrightarrow> shell_exec w params =
              Inr [(u ''success'', PBool True),
                   (u ''stdout'', PStr (stdout proc)),
                   (u ''stderr'', PStr (stderr proc)),
                   (u ''return_code'', PInt (returncode proc))])"
  using assms by (simp add: shell_exec_def subscript_def Let_def)

theorem shell_exec_outcomes_witness:
  "shell_exec (offline\<lparr>subprocess_run := \<lambda>c d t. Inl (Exn TimeoutExpired [])\<rparr>)
      [u ''command'' \<mapsto> PStr (u ''sleep 60''), u ''timeout'' \<mapsto> PInt 5]
    = Inr [(u ''success'', PBool False), (u ''error'', PStr (u ''Command timed out after 5 seconds''))]
   \<and> shell_exec (offline\<lparr>subprocess_run := \<lambda>c d t. Inr \<lparr>stdout = u ''a'', stderr = [], returncode = 0\<rparr>\<rparr>)
      [u ''command'' \<mapsto> PStr (u ''ls'')]
    = Inr [(u ''success'', PBool True), (u ''stdout'', PStr (u ''a'')), (u ''stderr'', PStr []),
           (u ''return_code'', PInt 0)]"
  using shell_exec_outcomes [of "[u ''command'' \<mapsto> PStr (u ''sleep 60''), u ''timeout'' \<mapsto> PInt 5]"
      "PStr (u ''sleep 60'')" "offline\<lparr>subprocess_run := \<lambda>c d t. Inl (Exn TimeoutExpired [])\<rparr>" "[]"]
    shell_exec_outcomes [of "[u ''command'' \<mapsto> PStr (u ''ls'')]" "PStr (u ''ls'')"
      "offline\<lparr>subprocess_run := \<lambda>c d t. Inr \<lparr>stdout = u ''a'', stderr = [], returncode = 0\<rparr>\<rparr>"
      _ "\<lparr>stdout = u ''a'', stderr = [], returncode = 0\<rparr>"]
  by (simp add: params_get_def py_str_def str_int_def dec.simps u_def)

subsection \<open>The limits of browser\_navigate\<close>

lemma within_failure [simp]:
  "within_limits [(u ''success'', PBool False), (u ''error'', PStr msg)]"
  by (simp add: within_limits_def)

lemma browser_navigate_returns: "returns within_limits (browser_navigate w params)"
  unfolding browser_navigate_def subscript_def Let_def
  by (cases "params (u ''url'')"; simp;
      intro try_except_returns returns_bind returns_if)
     (simp_all add: within_limits_def)

text \<open>
  C10. For every input and every page, a result of \<open>browser_navigate\<close> holds at most 5000
  characters under \<open>text\<close> and at most 50 entries under \<open>links\<close>.
\<close>

theorem browser_navigate_bounds:
  assumes "browser_navigate w params = Inr r"
  shows "within_limits r"
  using assms browser_navigate_returns [of w params] by simp

lemma linebreak_is_space: "is_linebreak c \<Longrightarrow> is_space c"
  unfolding is_linebreak_def is_space_def by arith

lemma blank_is_space: "is_space 32"
  by (simp add: is_space_def)

lemma splitlines_plain:
  "\<forall>c \<in> set s. \<not> is_space c \<Longrightarrow> cur @ s \<noteq> [] \<Longrightarrow> splitlines_aux False cur s = [cur @ s]"
proof (induction s arbitrary: cur)
  case Nil
  then show ?case by simp
next
  case (Cons c s)
  from Cons.prems have "\<not> is_linebreak c"
    using linebreak_is_space by auto
  with Cons show ?case by simp
qed

lemma split_sep_plain:
  "\<forall>c \<in> set s. \<not> is_space c \<Longrightarrow> split_sep_aux (u ''  '') 0 cur s = [cur @ s]"
proof (induction s arbitrary: cur)
  case Nil
  then show ?case by simp
next
  case (Cons c s)
  from Cons.prems have "c \<noteq> 32"
    using blank_is_space by auto
  then have "take (length (u ''  '')) (c # s) \<noteq> u ''  ''"
    by (simp add: u_def)
  with Cons show ?case by simp
qed

lemma dropWhile_none: "\<forall>c \<in> set xs. \<not> P c \<Longrightarrow> dropWhile P xs = xs"
  by (cases xs) auto

lemma strip_plain: "\<forall>c \<in> set s. \<not> is_space c \<Longrightarrow> strip s = s"
  by (simp add: strip_def dropWhile_none)

lemma page_text_plain:
  assumes "\<forall>c \<in> set s. \<not> is_space c" and "s \<noteq> []"
  shows "page_text s = s"
  using assms
  by (simp add: page_text_def splitlines_def split_sep_def splitlines_plain split_sep_plain strip_plain)

lemma py_for_replicate: "f x = Inr [y] \<Longrightarrow> py_for f (replicate n x) = Inr (replicate n y)"
  by (induction n) (simp_all add: py_bind_def)

lemma long_page_calls:
  "requests_get long_page = (\<lambda>l h. Inr \<lparr>status_code = 200, response_content = []\<rparr>)"
  "raise_for_status long_page = (\<lambda>r. Inr ())"
  "html_parser long_page = (\<lambda>b. Inr \<lparr>soup_title = Some (PStr (u ''T'')),
                               soup_text = replicate 6000 97,
                               soup_links = \<lambda>d. replicate 60 (PStr (u ''/a''), u ''a'')\<rparr>)"
  "urljoin long_page = (\<lambda>b h. Inr h)"
  by (simp_all add: long_page_def offline_def)

theorem browser_navigate_bounds_witness:
  "browser_navigate long_page [u ''url'' \<mapsto> PStr (u ''http://x''), u ''extract_links'' \<mapsto> PBool True]
     = Inr [(u ''success'', PBool True),
            (u ''url'', PStr (u ''http://x'')),
            (u ''title'', PStr (u ''T'')),
            (u ''status_code'', PInt 200),
            (u ''text'', PStr (replicate 5000 97)),
            (u ''links'', PList (replicate 50 (PDict [(u ''text'', PStr (u ''a'')), (u ''url'', PStr (u ''/a''))])))]
   \<and> within_limits
        [(u ''success'', PBool True),
         (u ''url'', PStr (u ''http://x'')),
         (u ''title'', PStr (u ''T'')),
         (u ''status_code'', PInt 200),
         (u ''text'', PStr (replicate 5000 97)),
         (u ''links'', PList (replicate 50 (PDict [(u ''text'', PStr (u ''a'')), (u ''url'', PStr (u ''/a''))])))]"
proof -
  have t: "page_text (replicate 6000 97) = replicate 6000 97"
    by (rule page_text_plain) (simp_all add: is_space_def)
  have l: "py_for (link_entry long_page (PStr (u ''http://x''))) (replicate 60 (PStr (u ''/a''), u ''a''))
    = Inr (replicate 60 (PDict [(u ''text'', PStr (u ''a'')), (u ''url'', PStr (u ''/a''))]))"
    by (rule py_for_replicate) (simp add: link_entry_def long_page_calls py_bind_def)
  have run: "browser_navigate long_page [u ''url'' \<mapsto> PStr (u ''http://x''), u ''extract_links'' \<mapsto> PBool True]
     = Inr [(u ''success'', PBool True),
            (u ''url'', PStr (u ''http://x'')),
            (u ''title'', PStr (u ''T'')),
            (u ''status_code'', PInt 200),
            (u ''text'', PStr (replicate 5000 97)),
            (u ''links'', PList (replicate 50 (PDict [(u ''text'', PStr (u ''a'')), (u ''url'', PStr (u ''/a''))])))]"
    unfolding browser_navigate_def subscript_def params_get_def
    by (simp add: try_except_def py_bind_def truthy_def Let_def long_page_calls l t)
  from browser_navigate_bounds [OF run] run show ?thesis by simp
qed

section \<open>Properties of the engine\<close>

subsection \<open>Cycle rejection\<close>

lemma dep_ordered_subset:
  "dep_ordered deps vis \<Longrightarrow> m \<in> set vis \<Longrightarrow> set (deps ! m) \<subseteq> set vis"
  by (induction vis) auto

lemma dep_ordered_closed:
  assumes "dep_ordered deps vis" and "(a, b) \<in> (dep_rel deps)\<^sup>*" and "a \<in> set vis"
  shows "b \<in> set vis"
  using assms(2,3)
proof (induction rule: rtrancl_induct)
  case base
  then show ?case by simp
next
  case (step y z)
  then have "y \<in> set vis" by simp
  with assms(1) have "set (deps ! y) \<subseteq> set vis" by (rule dep_ordered_subset)
  with step.hyps(2) show ?case by (auto simp: dep_rel_def)
qed

lemma dep_ordered_acyclic:
  "dep_ordered deps vis \<Longrightarrow> m \<in> set vis \<Longrightarrow> (m, m) \<notin> (dep_rel deps)\<^sup>+"
proof (induction vis)
  case Nil
  then show ?case by simp
next
  case (Cons n rest)
  then have sub: "set (deps ! n) \<subseteq> set rest" and ord: "dep_ordered deps rest"
    by simp_all
  show ?case
  proof (cases "m \<in> set rest")
    case True
    with Cons.IH ord show ?thesis by simp
  next
    case False
    with Cons.prems have mn: "m = n" by simp
    show ?thesis
    proof
      assume "(m, m) \<in> (dep_rel deps)\<^sup>+"
      then obtain d where d: "(m, d) \<in> dep_rel deps" and ret: "(d, m) \<in> (dep_rel deps)\<^sup>*"
        by (auto dest: tranclD)
      from d mn sub have "d \<in> set rest" by (auto simp: dep_rel_def)
      with ord ret have "m \<in> set rest" by (rule dep_ordered_closed)
      with False show False by simp
    qed
  qed
qed

lemma kahn_inv_init:
  "kahn_inv deps (filter (\<lambda>m. in_degree deps m = 0) [0..<length deps]) (in_degree deps) []"
  by (simp add: kahn_inv_def in_degree_def length_remdups_card_conv)

lemma kahn_inv_step:
  assumes inv: "kahn_inv deps (n # queue) indeg visited"
  shows "kahn_inv deps
       (queue @ filter (\<lambda>m. indeg m - 1 = 0) (dependents deps n))
       (\<lambda>m. if m \<in> set (dependents deps n) then indeg m - 1 else indeg m)
       (n # visited)"
proof -
  let ?D = "\<lambda>m. set (deps ! m)"
  let ?V = "set visited"
  let ?ms = "dependents deps n"
  from inv have I1: "\<And>m. m < length deps \<Longrightarrow> indeg m = int (card (?D m - ?V))"
    and I2: "\<And>m. m \<in> set (n # queue) \<Longrightarrow> m < length deps \<and> indeg m = 0"
    and I3: "\<And>m. m \<in> ?V \<Longrightarrow> m < length deps"
    and I4: "distinct ((n # queue) @ visited)"
    and I5: "dep_ordered deps visited"
    and I6: "\<And>m. m < length deps \<Longrightarrow> indeg m = 0 \<Longrightarrow> m \<in> set (n # queue) \<union> ?V"
    unfolding kahn_inv_def by blast+
  have ms: "\<And>m. m \<in> set ?ms \<longleftrightarrow> m < length deps \<and> n \<in> ?D m"
    by (auto simp: dependents_def)
  have zero: "?D m \<subseteq> ?V" if "m < length deps" "indeg m = 0" for m
  proof -
    from that I1 have "card (?D m - ?V) = 0" by simp
    then show ?thesis by simp
  qed
  from I2 have nN: "n < length deps" and n0: "indeg n = 0" by simp_all
  from I4 have nV: "n \<notin> ?V" and nq: "n \<notin> set queue" by simp_all
  have q_not: "m \<notin> set ?ms" if "m \<in> set queue" for m
  proof -
    from that I2 have "m < length deps" "indeg m = 0" by simp_all
    then have "?D m \<subseteq> ?V" by (rule zero)
    with nV show ?thesis by (auto simp: ms)
  qed
  have v_not: "m \<notin> set ?ms" if "m \<in> ?V" for m
  proof -
    from I5 that have "?D m \<subseteq> ?V" by (rule dep_ordered_subset)
    with nV show ?thesis by (auto simp: ms)
  qed
  have n_not: "n \<notin> set ?ms"
    using zero [OF nN n0] nV by (auto simp: ms)
  have J1: "(if m \<in> set ?ms then indeg m - 1 else indeg m) = int (card (?D m - set (n # visited)))"
    if "m < length deps" for m
  proof (cases "n \<in> ?D m")
    case True
    with nV have "n \<in> ?D m - ?V" by simp
    moreover have "?D m - set (n # visited) = (?D m - ?V) - {n}" by auto
    ultimately have "card (?D m - set (n # visited)) = card (?D m - ?V) - 1"
      and "card (?D m - ?V) > 0"
      by (simp_all add: card_gt_0_iff) blast
    with True that I1 [OF that] show ?thesis by (simp add: ms)
  next
    case False
    then have "?D m - set (n # visited) = ?D m - ?V" by auto
    with False that I1 [OF that] show ?thesis by (simp add: ms)
  qed
  have J2: "m < length deps \<and> (if m \<in> set ?ms then indeg m - 1 else indeg m) = 0"
    if "m \<in> set (queue @ filter (\<lambda>m. indeg m - 1 = 0) ?ms)" for m
    using that I2 [of m] q_not [of m] by (auto simp: ms)
  have J3: "m < length deps" if "m \<in> set (n # visited)" for m
    using that nN I3 by auto
  have "distinct ?ms" by (simp add: dependents_def)
  with I4 q_not v_not n_not
  have J4: "distinct ((queue @ filter (\<lambda>m. indeg m - 1 = 0) ?ms) @ n # visited)"
    by auto
  have J5: "dep_ordered deps (n # visited)"
    using zero [OF nN n0] I5 by simp
  have J6: "m \<in> set (queue @ filter (\<lambda>m. indeg m - 1 = 0) ?ms) \<union> set (n # visited)"
    if "m < length deps" "(if m \<in> set ?ms then indeg m - 1 else indeg m) = 0" for m
  proof (cases "m \<in> set ?ms")
    case True
    with that show ?thesis by simp
  next
    case False
    with that have "indeg m = 0" by simp
    with that(1) have "m \<in> set (n # queue) \<union> ?V" by (rule I6)
    then show ?thesis by auto
  qed
  from J1 J2 J3 J4 J5 J6 show ?thesis
    unfolding kahn_inv_def by blast
qed

lemma kahn_loop_inv:
  "kahn_inv deps queue indeg visited \<Longrightarrow>
   \<exists>indeg'. kahn_inv deps [] indeg' (kahn_loop deps queue indeg visited)"
proof (induction deps queue indeg visited rule: kahn_loop.induct)
  case (1 deps indeg visited)
  then show ?case by auto
next
  case (2 deps n queue indeg visited)
  from "2.prems" have "kahn_inv deps
       (queue @ filter (\<lambda>m. indeg m - 1 = 0) (dependents deps n))
       (\<lambda>m. if m \<in> set (dependents deps n) then indeg m - 1 else indeg m)
       (n # visited)"
    by (rule kahn_inv_step)
  with "2.IH" show ?case by simp
qed

lemma kahn_inv_final: "\<exists>indeg'. kahn_inv deps [] indeg' (kahn deps)"
  unfolding kahn_def by (rule kahn_loop_inv) (rule kahn_inv_init)

lemma kahn_ordered: "dep_ordered deps (kahn deps)"
  using kahn_inv_final [of deps] by (auto simp: kahn_inv_def)

text \<open>
  The other direction: when no step depends on itself along dependencies and every
  reference is the position of a step of the plan, Kahn's algorithm visits every step.
\<close>

lemma kahn_complete:
  assumes acyc: "\<not> has_cycle deps"
    and refs: "\<forall>m < length deps. \<forall>d \<in> set (deps ! m). d < length deps"
  shows "list_all (\<lambda>m. m \<in> set (kahn deps)) [0..<length deps]"
proof (rule ccontr)
  assume "\<not> list_all (\<lambda>m. m \<in> set (kahn deps)) [0..<length deps]"
  then obtain m0 where m0: "m0 < length deps" "m0 \<notin> set (kahn deps)"
    by (auto simp: list_all_iff)
  obtain indeg where inv: "kahn_inv deps [] indeg (kahn deps)"
    using kahn_inv_final by blast
  let ?U = "{m. m < length deps \<and> m \<notin> set (kahn deps)}"
  let ?R = "{(m, d). (m, d) \<in> dep_rel deps \<and> m \<in> ?U \<and> d \<in> ?U}"
  have "?R \<subseteq> {..<length deps} \<times> {..<length deps}" by auto
  then have fin: "finite ?R" by (rule finite_subset) simp
  from acyc have "acyclic (dep_rel deps)"
    by (simp add: has_cycle_def acyclic_def)
  then have "acyclic ?R" by (rule acyclic_subset) auto
  with fin have "wf (?R\<inverse>)" by (rule finite_acyclic_wf_converse)
  moreover from m0 have "m0 \<in> ?U" by simp
  ultimately obtain z where z: "z \<in> ?U" and least: "\<And>y. (y, z) \<in> ?R\<inverse> \<Longrightarrow> y \<notin> ?U"
    by (rule wfE_min) blast
  from z have zN: "z < length deps" and zV: "z \<notin> set (kahn deps)" by simp_all
  from inv zN zV have "indeg z \<noteq> 0" by (auto simp: kahn_inv_def)
  moreover from inv zN have "indeg z = int (card (set (deps ! z) - set (kahn deps)))"
    by (simp add: kahn_inv_def)
  ultimately have "set (deps ! z) - set (kahn deps) \<noteq> {}" by auto
  then obtain d where d: "d \<in> set (deps ! z)" "d \<notin> set (kahn deps)" by auto
  with refs zN have "d \<in> ?U" by auto
  moreover from d zN have "(z, d) \<in> dep_rel deps" by (simp add: dep_rel_def)
  ultimately have "(d, z) \<in> ?R\<inverse>" using z by simp
  then have "d \<notin> ?U" by (rule least)
  with \<open>d \<in> ?U\<close> show False by simp
qed

lemma acyclic_accepted:
  assumes "\<not> has_cycle (map d_dependency_refs descs)"
    and "\<forall>d \<in> set descs. \<forall>r \<in> set (d_dependency_refs d). r < length descs"
    and "\<forall>d \<in> set descs. reg (d_tool_name d) \<noteq> None"
  shows "compile_plan reg descs = Inr (map compile_step descs)"
proof -
  from assms(2) have "\<forall>m < length (map d_dependency_refs descs).
      \<forall>d \<in> set (map d_dependency_refs descs ! m). d < length (map d_dependency_refs descs)"
    using nth_mem by fastforce
  with assms(1) have "list_all (\<lambda>m. m \<in> set (kahn (map d_dependency_refs descs)))
      [0..<length (map d_dependency_refs descs)]"
    by (rule kahn_complete)
  with assms(3) show ?thesis by (simp add: compile_plan_def list_all_iff)
qed

lemma unknown_tool_rejected:
  assumes "\<not> has_cycle (map d_dependency_refs descs)"
    and "\<forall>d \<in> set descs. \<forall>r \<in> set (d_dependency_refs d). r < length descs"
    and "\<exists>d \<in> set descs. reg (d_tool_name d) = None"
  shows "compile_plan reg descs = Inl UnknownToolError"
proof -
  from assms(2) have "\<forall>m < length (map d_dependency_refs descs).
      \<forall>d \<in> set (map d_dependency_refs descs ! m). d < length (map d_dependency_refs descs)"
    using nth_mem by fastforce
  with assms(1) have "list_all (\<lambda>m. m \<in> set (kahn (map d_dependency_refs descs)))
      [0..<length (map d_dependency_refs descs)]"
    by (rule kahn_complete)
  with assms(3) show ?thesis by (auto simp: compile_plan_def list_all_iff)
qed

lemma cycle_unvisited:
  assumes "has_cycle deps"
  shows "\<not> list_all (\<lambda>m. m \<in> set (kahn deps)) [0..<length deps]"
proof -
  from assms obtain m where cyc: "(m, m) \<in> (dep_rel deps)\<^sup>+"
    by (auto simp: has_cycle_def)
  then obtain d where "(m, d) \<in> dep_rel deps"
    by (auto dest: tranclD)
  then have "m < length deps" by (simp add: dep_rel_def)
  moreover from cyc kahn_ordered have "m \<notin> set (kahn deps)"
    by (auto dest: dep_ordered_acyclic)
  ultimately show ?thesis by (auto simp: list_all_iff)
qed

text \<open>
  C2. Every plan whose dependency relation contains a cycle is left with an unvisited step
  by Kahn's algorithm and is rejected with PlanInvalidError; no step is created and the
  store is as it was.
\<close>

theorem cycle_rejected:
  assumes "has_cycle (map d_dependency_refs descs)"
  shows "\<not> list_all (\<lambda>m. m \<in> set (kahn (map d_dependency_refs descs))) [0..<length descs]
    \<and> compile_plan reg descs = Inl PlanInvalidError
    \<and> submit reg store tid t p descs = (Inl PlanInvalidError, store)"
  using cycle_unvisited [OF assms] by (simp add: compile_plan_def submit_def)

lemma kahn_ab: "kahn (map d_dependency_refs plan_ab) = [1, 0]"
  by (simp add: plan_ab_def kahn_def in_degree_def dependents_def upt_rec)

lemma kahn_cycle: "kahn (map d_dependency_refs plan_cycle) = []"
  by (simp add: plan_cycle_def kahn_def in_degree_def dependents_def upt_rec)

lemma has_cycle_plan_cycle: "has_cycle (map d_dependency_refs plan_cycle)"
proof -
  have "(0, 1) \<in> dep_rel (map d_dependency_refs plan_cycle)"
    and "(1, 0) \<in> dep_rel (map d_dependency_refs plan_cycle)"
    by (simp_all add: dep_rel_def plan_cycle_def)
  then have "(0, 0) \<in> (dep_rel (map d_dependency_refs plan_cycle))\<^sup>+"
    by (rule trancl_into_trancl [OF r_into_trancl])
  then show ?thesis unfolding has_cycle_def by blast
qed

theorem cycle_rejected_witness:
  "has_cycle (map d_dependency_refs plan_cycle)
   \<and> kahn (map d_dependency_refs plan_cycle) = []
   \<and> submit describe Map.empty 7 ''t'' 1 plan_cycle = (Inl PlanInvalidError, Map.empty)"
  using cycle_rejected [OF has_cycle_plan_cycle, of describe Map.empty 7 "''t''" 1]
    has_cycle_plan_cycle kahn_cycle by simp


subsection \<open>Dependency ordering\<close>

lemma nth_upd: "j < length xs \<Longrightarrow> xs[i := x] ! j = (if i = j then x else xs ! j)"
  by (cases "i = j") simp_all

lemma cascade_length [simp]: "length (cascade i ss) = length ss"
  by (simp add: cascade_def)

lemma promote_length [simp]: "length (promote ss) = length ss"
  by (simp add: promote_def)

lemma cascade_nth:
  "j < length ss \<Longrightarrow> cascade i ss ! j =
     (if waiting (status (ss ! j)) \<and> depends_on ss (length ss) j i
      then (ss ! j)\<lparr>status := Skipped\<rparr> else ss ! j)"
  by (simp add: cascade_def)

lemma promote_nth:
  "j < length ss \<Longrightarrow> promote ss ! j =
     (if status (ss ! j) = Pending \<and> deps_completed ss j
      then (ss ! j)\<lparr>status := Ready\<rparr> else ss ! j)"
  by (simp add: promote_def)

lemma apply_event_length [simp]: "length (steps (apply_event cfg s ev)) = length (steps s)"
  by (cases ev) (simp_all add: fail_step_def)

lemma apply_event_deps:
  "i < length (steps s) \<Longrightarrow>
   dependency_ids (steps (apply_event cfg s ev) ! i) = dependency_ids (steps s ! i)"
  by (cases ev) (simp_all add: fail_step_def cascade_nth promote_nth nth_upd)

lemma apply_event_tool:
  "i < length (steps s) \<Longrightarrow> step_tool (steps (apply_event cfg s ev) ! i) = step_tool (steps s ! i)"
  by (cases ev) (simp_all add: fail_step_def cascade_nth promote_nth nth_upd)

lemma apply_event_completed:
  "i < length (steps s) \<Longrightarrow> status (steps s ! i) = Completed \<Longrightarrow>
   status (steps (apply_event cfg s ev) ! i) = Completed"
  by (cases ev)
     (auto simp: fail_step_def cascade_nth promote_nth nth_upd waiting_def terminal_def
           dispatchable_def)

lemma entered_running:
  assumes "i < length (steps s)"
    and "status (steps (apply_event cfg s ev) ! i) = Running"
    and "status (steps s ! i) \<noteq> Running"
  shows "ev = Dispatch i \<and> dispatchable cfg s i"
  using assms
  by (cases ev)
     (auto simp: fail_step_def cascade_nth promote_nth nth_upd terminal_def
           split: if_splits)

lemma deps_completed_step:
  assumes "i < length (steps s)" and "deps_completed (steps s) i"
  shows "deps_completed (steps (apply_event cfg s ev)) i"
  using assms
  by (auto simp: deps_completed_def list_all_iff apply_event_deps apply_event_completed)

lemma running_ok_step:
  assumes "running_ok s"
  shows "running_ok (apply_event cfg s ev)"
  unfolding running_ok_def
proof (intro allI impI)
  fix i
  assume i: "i < length (steps (apply_event cfg s ev))"
    and r: "status (steps (apply_event cfg s ev) ! i) = Running"
  from i have i': "i < length (steps s)" by simp
  have "deps_completed (steps s) i"
  proof (cases "status (steps s ! i) = Running")
    case True
    with assms i' show ?thesis by (simp add: running_ok_def)
  next
    case False
    with i' r have "dispatchable cfg s i" by (auto dest: entered_running)
    then show ?thesis by (simp add: dispatchable_def)
  qed
  with i' show "deps_completed (steps (apply_event cfg s ev)) i"
    by (rule deps_completed_step)
qed

lemma running_ok_run: "running_ok s \<Longrightarrow> running_ok (run cfg s evs)"
  by (induction evs arbitrary: s) (simp_all add: running_ok_step)

lemma compiled_not_running:
  "compile_plan reg descs = Inr ss \<Longrightarrow> running_ok (new_task t p ss)"
  by (auto simp: compile_plan_def running_ok_def new_task_def compile_step_def split: if_splits)

lemma describe_simps:
  "describe ''shell_exec'' =
     Some \<lparr>tool_name = ''shell_exec'', category = ''system'', required = [''command''],
       implementation = shell_exec, tool_security_level = Moderate, requires_confirmation = True\<rparr>"
  "describe ''file_read'' =
     Some \<lparr>tool_name = ''file_read'', category = ''file'', required = [''path''],
       implementation = file_read, tool_security_level = Safe, requires_confirmation = False\<rparr>"
  "describe ''file_write'' =
     Some \<lparr>tool_name = ''file_write'', category = ''file'', required = [''path'', ''content''],
       implementation = file_write, tool_security_level = Safe, requires_confirmation = False\<rparr>"
  by (simp_all add: describe_def tools_def)

lemma compile_plan_ab: "compile_plan describe plan_ab = Inr (steps_ab Ready Pending)"
  by (simp add: compile_plan_def kahn_ab)
     (simp add: plan_ab_def describe_simps upt_rec compile_step_def steps_ab_def)

lemma run_snoc: "run cfg s (evs @ [ev]) = apply_event cfg (run cfg s evs) ev"
  by (induction evs arbitrary: s) simp_all

lemma run_length [simp]: "length (steps (run cfg s evs)) = length (steps s)"
  by (induction evs arbitrary: s) simp_all

lemma run_tool: "i < length (steps s) \<Longrightarrow> step_tool (steps (run cfg s evs) ! i) = step_tool (steps s ! i)"
  by (induction evs arbitrary: s) (simp_all add: apply_event_tool)

text \<open>
  C1. For every task compiled from a plan and every sequence of events, every step that
  is running has all the steps of its dependency\_ids completed; and a step that is not
  running enters \<open>running\<close> only by a dispatch, at a moment when all the steps of its
  dependency\_ids are completed.
\<close>

theorem dependency_ordering:
  assumes "compile_plan (registry cfg) descs = Inr ss"
  shows "(\<forall>i < length ss. status (steps (run cfg (new_task t p ss) evs) ! i) = Running
            \<longrightarrow> deps_completed (steps (run cfg (new_task t p ss) evs)) i)
    \<and> (\<forall>i < length ss.
          status (steps (run cfg (new_task t p ss) evs) ! i) \<noteq> Running
          \<longrightarrow> status (steps (run cfg (new_task t p ss) (evs @ [ev])) ! i) = Running
          \<longrightarrow> ev = Dispatch i \<and> deps_completed (steps (run cfg (new_task t p ss) evs)) i)"
proof (intro conjI allI impI)
  fix i
  assume i: "i < length ss"
    and r: "status (steps (run cfg (new_task t p ss) evs) ! i) = Running"
  from assms have "running_ok (new_task t p ss)" by (rule compiled_not_running)
  then have "running_ok (run cfg (new_task t p ss) evs)" by (rule running_ok_run)
  with i r show "deps_completed (steps (run cfg (new_task t p ss) evs)) i"
    by (simp add: running_ok_def new_task_def)
next
  fix i
  assume i: "i < length ss"
    and n: "status (steps (run cfg (new_task t p ss) evs) ! i) \<noteq> Running"
    and r: "status (steps (run cfg (new_task t p ss) (evs @ [ev])) ! i) = Running"
  from i have "i < length (steps (run cfg (new_task t p ss) evs))"
    by (simp add: new_task_def)
  with n r have d: "ev = Dispatch i \<and> dispatchable cfg (run cfg (new_task t p ss) evs) i"
    by (intro entered_running) (simp_all add: run_snoc)
  then show "ev = Dispatch i" by simp
  from d show "deps_completed (steps (run cfg (new_task t p ss) evs)) i"
    by (simp add: dispatchable_def)
qed


lemma seeded_simps:
  "registry seeded = describe" "max_retries seeded = (\<lambda>t. 0)" "max_concurrent_steps seeded = 4"
  by (simp_all add: seeded_def)

lemma new_task_ab: "new_task ''t'' 1 ss = task_ab ss"
  by (simp add: new_task_def task_ab_def)

lemmas eval_defs = dispatchable_def task_ab_def steps_ab_def deps_completed_def task_status_of_def
  waiting_def active_def seeded_simps

lemma blocked_by_dependency:
  "apply_event seeded (task_ab (steps_ab Ready Pending)) (Dispatch 1) = task_ab (steps_ab Ready Pending)"
  by (simp add: eval_defs)

lemma dispatch_first:
  "apply_event seeded (task_ab (steps_ab Ready Pending)) (Dispatch 0) = task_ab (steps_ab Running Pending)"
  by (simp add: eval_defs)

lemma first_succeeds:
  "apply_event seeded (task_ab (steps_ab Running Pending)) (StepSucceeded 0)
     = task_ab (steps_ab Completed Ready)"
  by (simp add: eval_defs promote_def upt_rec)

lemma dispatch_second:
  "apply_event seeded (task_ab (steps_ab Completed Ready)) (Dispatch 1)
     = task_ab (steps_ab Completed Running)"
  by (simp add: eval_defs)

lemma run_blocked:
  "run seeded (new_task ''t'' 1 (steps_ab Ready Pending)) [Dispatch 1] = task_ab (steps_ab Ready Pending)"
  unfolding new_task_ab run.simps blocked_by_dependency by (rule refl)

lemma run_first_done:
  "run seeded (new_task ''t'' 1 (steps_ab Ready Pending))
     [Dispatch 1, Dispatch 0, StepSucceeded 0] = task_ab (steps_ab Completed Ready)"
  unfolding new_task_ab run.simps blocked_by_dependency dispatch_first first_succeeds
  by (rule refl)

lemma run_second_started:
  "run seeded (new_task ''t'' 1 (steps_ab Ready Pending))
     ([Dispatch 1, Dispatch 0, StepSucceeded 0] @ [Dispatch 1])
   = task_ab (steps_ab Completed Running)"
  unfolding new_task_ab append.simps run.simps blocked_by_dependency dispatch_first first_succeeds
    dispatch_second
  by (rule refl)

lemma steps_task_ab: "steps (task_ab ss) = ss"
  by (simp add: task_ab_def)

lemma second_ready: "deps_completed (steps_ab Completed Ready) 1"
  by (simp add: steps_ab_def deps_completed_def)

theorem dependency_ordering_witness:
  "compile_plan (registry seeded) plan_ab = Inr (steps_ab Ready Pending)
   \<and> steps (run seeded (new_task ''t'' 1 (steps_ab Ready Pending)) [Dispatch 1]) = steps_ab Ready Pending
   \<and> steps (run seeded (new_task ''t'' 1 (steps_ab Ready Pending))
        [Dispatch 1, Dispatch 0, StepSucceeded 0]) = steps_ab Completed Ready
   \<and> steps (run seeded (new_task ''t'' 1 (steps_ab Ready Pending))
        ([Dispatch 1, Dispatch 0, StepSucceeded 0] @ [Dispatch 1])) = steps_ab Completed Running
   \<and> deps_completed (steps_ab Completed Ready) 1"
  using dependency_ordering [of seeded plan_ab "steps_ab Ready Pending" "''t''" 1
      "[Dispatch 1, Dispatch 0, StepSucceeded 0]" "Dispatch 1"]
  unfolding run_blocked run_first_done run_second_started steps_task_ab seeded_simps compile_plan_ab
  using second_ready by blast

subsection \<open>The registration of shell\_exec\<close>



end
